theory Spec2Isabelle
  imports Main
begin

section \<open>Service Fabric REST client: data model\<close>

text \<open>
  The Go package \<^verbatim>\<open>servicefabric\<close> (file \<^verbatim>\<open>servicefabric.go\<close>) is embedded function by
  function. Go strings and byte slices are \<open>string\<close> (a nil byte slice is the empty list,
  which every consumer in this file treats like an empty one); a Go pointer is an
  \<open>option\<close> (\<open>None\<close> is nil); a Go result \<^verbatim>\<open>(v, error)\<close> is a pair whose second component is
  \<open>error option\<close> (\<open>None\<close> is the nil error); a Go \<^verbatim>\<open>map[string]string\<close> is
  \<open>(string \<rightharpoonup> string) option\<close>, \<open>None\<close> being the nil map.
\<close>

text \<open>\<^verbatim>\<open>const DefaultAPIVersion = "3.0"\<close> and \<^verbatim>\<open>http.StatusOK\<close>.\<close>

definition DefaultAPIVersion :: string where
  "DefaultAPIVersion = ''3.0''"

definition StatusOK :: int where
  "StatusOK = 200"

text \<open>
  The error values the package builds with \<^verbatim>\<open>errors.New\<close> and \<^verbatim>\<open>fmt.Errorf\<close>, one constructor
  per message, carrying the values the format string interpolates:
  \<^item> \<open>EndpointMissing\<close>: "endpoint missing for httpClient configuration";
  \<^item> \<open>InvalidHTTPClient\<close>: "invalid http client provided";
  \<^item> \<open>ConnectFailed err url\<close>: "failed to connect to Service Fabric server %+v on %s";
  \<^item> \<open>ErrorCode status url\<close>: "Service Fabric responded with error code %d to request %s
    with body";
  \<^item> \<open>EmptyResponseBody\<close>: "empty response body from Service Fabric";
  \<^item> \<open>JSONDeserialise err\<close>: "could not deserialise JSON response: %+v";
  \<^item> \<open>XMLDeserialise err\<close>: "could not deserialise extension's XML value: %+v";
  \<^item> \<open>ServiceExtensionsRequest err\<close>: "error requesting service extensions: %v";
  \<^item> \<open>ClusterHealthFailed\<close>: "error getting cluster health".
\<close>

datatype error =
    EndpointMissing
  | InvalidHTTPClient
  | ConnectFailed string string
  | ErrorCode int string
  | EmptyResponseBody
  | JSONDeserialise string
  | XMLDeserialise string
  | ServiceExtensionsRequest error
  | ClusterHealthFailed

record AppParameter =
  Key :: string
  Value :: string

record ApplicationItem =
  HealthState :: string
  ID :: string
  Name :: string
  Parameters :: "AppParameter option list"
  Status :: string
  TypeName :: string
  TypeVersion :: string

record ApplicationItemsPage =
  ContinuationToken :: "string option"
  Items :: "ApplicationItem list"

record ServiceItem =
  HasPersistedState :: bool
  HealthState :: string
  ID :: string
  IsServiceGroup :: bool
  ManifestVersion :: string
  Name :: string
  ServiceKind :: string
  ServiceStatus :: string
  TypeName :: string

record ServiceItemsPage =
  ContinuationToken :: "string option"
  Items :: "ServiceItem list"

record KeyValuePair =
  Key :: string
  Value :: string

text \<open>\<^verbatim>\<open>interface{}\<close> elements of \<^verbatim>\<open>LoadMetrics\<close> and \<^verbatim>\<open>ServicePlacementPolicies\<close>: never inspected.\<close>

typedecl json_value

record ServiceTypeDescription =
  IsStateful :: bool
  ServiceTypeName :: string
  PlacementConstraints :: string
  HasPersistedState :: bool
  Kind :: string
  Extensions :: "KeyValuePair list"
  LoadMetrics :: "json_value list"
  ServicePlacementPolicies :: "json_value list"

record ServiceType =
  ServiceTypeDescription :: ServiceTypeDescription
  ServiceManifestVersion :: string
  ServiceManifestName :: string
  IsServiceGroup :: bool

record Metadata =
  CustomTypeID :: string
  LastModifiedUtcTimestamp :: string
  Parent :: string
  SequenceNumber :: string
  SizeInBytes :: int
  TypeID :: string

record PropValue =
  Data :: string
  Kind :: string

record Property =
  Metadata :: Metadata
  Name :: string
  Value :: PropValue

record PropertiesListPage =
  ContinuationToken :: string
  IsConsistent :: bool
  Properties :: "Property list"

text \<open>One \<^verbatim>\<open>Label\<close> element of \<^verbatim>\<open>ServiceExtensionLabels\<close>: its character data and its \<^verbatim>\<open>Key\<close> attribute.\<close>

record Label =
  Value :: string
  Key :: string

record ServiceExtensionLabels =
  Label :: "Label list"

section \<open>The injected transport and the observable world\<close>

text \<open>
  \<^verbatim>\<open>requests.HTTPClient\<close> is an external library. What the package uses of it is one
  capability: \<^verbatim>\<open>NewRequest(method, url).Into(&text).StatusInto(&status).Run()\<close>, which either
  fails (\<open>Inl\<close>, carrying the library's error) or fills in the body text and the status code
  (\<open>Inr\<close>). The capability is a parameter: a function of the remote side's state \<open>'s\<close>, the
  method and the URL, returning the outcome and the remote side's next state.
\<close>

type_synonym response = "string + string \<times> int"

type_synonym 's HTTPClient = "'s \<Rightarrow> string \<Rightarrow> string \<Rightarrow> response \<times> 's"

text \<open>
  The world a call runs in: the remote side's state, and two ghost logs that the Go code
  does not keep but that the properties speak about: every request issued (method and
  URL, in order) and every byte string handed to a decoder (in order).
\<close>

record 's world =
  remote :: 's
  requests :: "(string \<times> string) list"
  decoded :: "string list"

definition Run :: "'s HTTPClient \<Rightarrow> string \<Rightarrow> string \<Rightarrow> 's world \<Rightarrow> response \<times> 's world" where
  "Run h method url w =
     (case h (remote w) method url of
        (r, t) \<Rightarrow> (r, w\<lparr>remote := t, requests := requests w @ [(method, url)]\<rparr>))"

text \<open>
  \<^verbatim>\<open>json.Unmarshal(res, &v)\<close> into a fresh zero value \<^verbatim>\<open>v\<close>: the codec is a parameter, a function
  from the bytes to the parse error (\<open>Inl\<close>) or the decoded value (\<open>Inr\<close>).
\<close>

definition json_Unmarshal ::
  "(string \<Rightarrow> string + 'a) \<Rightarrow> string \<Rightarrow> 's world \<Rightarrow> (string + 'a) \<times> 's world" where
  "json_Unmarshal codec res w = (codec res, w\<lparr>decoded := decoded w @ [res]\<rparr>)"

text \<open>
  \<^verbatim>\<open>xml.Unmarshal([]byte(value), &response)\<close> decodes into the value the caller's pointer
  refers to: the codec is a parameter, a function from the text and the target as it is to
  the parse error, if any, and the target as the decoder leaves it.
\<close>

definition xml_Unmarshal ::
  "(string \<Rightarrow> 'r \<Rightarrow> string option \<times> 'r) \<Rightarrow> string \<Rightarrow> 'r \<Rightarrow> 's world
     \<Rightarrow> (string option \<times> 'r) \<times> 's world" where
  "xml_Unmarshal codec text response w = (codec text response, w\<lparr>decoded := decoded w @ [text]\<rparr>)"

section \<open>The client\<close>

record 's ServiceFabricClient =
  endpoint :: string
  apiVersion :: string
  httpClient :: "'s HTTPClient option"

definition NewServiceFabricClient ::
  "'s HTTPClient option \<Rightarrow> string \<Rightarrow> string \<Rightarrow> 's ServiceFabricClient option \<times> error option" where
  "NewServiceFabricClient httpClient' endpoint' apiVersion' =
     (if endpoint' = '''' then (None, Some EndpointMissing)
      else
        let apiVersion' = (if apiVersion' = '''' then DefaultAPIVersion else apiVersion')
        in (Some \<lparr>endpoint = endpoint', apiVersion = apiVersion', httpClient = httpClient'\<rparr>, None))"

subsection \<open>Query parameters and URLs\<close>

type_synonym queryParamsFunc = "string list \<Rightarrow> string list"

definition getString :: "string option \<Rightarrow> string" where
  "getString str = (case str of None \<Rightarrow> '''' | Some s \<Rightarrow> s)"

definition withParam :: "string \<Rightarrow> string \<Rightarrow> queryParamsFunc" where
  "withParam name value' = (\<lambda>params. params @ [name @ ''='' @ value'])"

definition noOp :: queryParamsFunc where
  "noOp params = params"

definition withContinue :: "string \<Rightarrow> queryParamsFunc" where
  "withContinue token = (if length token = 0 then noOp else withParam ''continue'' token)"

text \<open>\<^verbatim>\<open>strings.Join(elems, sep)\<close>.\<close>

fun Join :: "string list \<Rightarrow> string \<Rightarrow> string" where
  "Join [] sep = ''''"
| "Join [x] sep = x"
| "Join (x # y # ys) sep = x @ sep @ Join (y # ys) sep"

text \<open>The \<^verbatim>\<open>range paramsFuncs\<close> loop of \<^verbatim>\<open>getURL\<close> is the left fold; the result is
  \<^verbatim>\<open>fmt.Sprintf("%s/%s?%s", c.endpoint, basePath, strings.Join(params, "&"))\<close>.\<close>

definition getURL :: "'s ServiceFabricClient \<Rightarrow> string \<Rightarrow> queryParamsFunc list \<Rightarrow> string" where
  "getURL c basePath paramsFuncs =
     (let params = [''api-version='' @ apiVersion c];
          params = foldl (\<lambda>params paramsFunc. paramsFunc params) params paramsFuncs
      in endpoint c @ ''/'' @ basePath @ ''?'' @ Join params ''&'')"

subsection \<open>The transport adapter\<close>

definition getHTTP ::
  "'s ServiceFabricClient \<Rightarrow> string \<Rightarrow> queryParamsFunc list \<Rightarrow> 's world
     \<Rightarrow> (string \<times> error option) \<times> 's world" where
  "getHTTP c basePath paramsFuncs w =
     (case httpClient c of
        None \<Rightarrow> (('''', Some InvalidHTTPClient), w)
      | Some h \<Rightarrow>
          let url = getURL c basePath paramsFuncs in
          (case Run h ''GET'' url w of
             (Inl err, w') \<Rightarrow> (('''', Some (ConnectFailed err url)), w')
           | (Inr (text, status), w') \<Rightarrow>
               if status \<noteq> StatusOK then (('''', Some (ErrorCode status url)), w')
               else if length text = 0 then (('''', Some EmptyResponseBody), w')
               else ((text, None), w')))"

definition getHTTPRaw ::
  "'s ServiceFabricClient \<Rightarrow> string \<Rightarrow> 's world \<Rightarrow> (int \<times> error option) \<times> 's world" where
  "getHTTPRaw c basePath w =
     (case httpClient c of
        None \<Rightarrow> ((- 1, Some InvalidHTTPClient), w)
      | Some h \<Rightarrow>
          let url = getURL c basePath [] in
          (case Run h ''GET'' url w of
             (Inl err, w') \<Rightarrow> ((- 1, Some (ConnectFailed err url)), w')
           | (Inr (text, status), w') \<Rightarrow> ((status, None), w')))"

text \<open>
  \<^verbatim>\<open>postHTTP\<close>, \<^verbatim>\<open>DeleteService\<close> and \<^verbatim>\<open>DeleteApplication\<close> are not embedded: as given they do
  not type-check. \<^verbatim>\<open>postHTTP\<close> redeclares its parameter \<^verbatim>\<open>body\<close>, uses an undeclared \<^verbatim>\<open>status\<close>
  and applies \<^verbatim>\<open>len\<close> and \<^verbatim>\<open>[]byte\<close> to an \<^verbatim>\<open>interface{}\<close>; the two delete operations pass a
  \<^verbatim>\<open>queryParamsFunc\<close> where \<^verbatim>\<open>postHTTP\<close> takes \<^verbatim>\<open>body []byte\<close> and compare the byte slice it
  returns with \<^verbatim>\<open>http.StatusOK\<close>. No definition of this file would be a translation of them.
\<close>

section \<open>Pagination\<close>

text \<open>
  Go's \<^verbatim>\<open>for { ... }\<close>: one pass of the body either returns from the enclosing function,
  breaks out of the loop, or goes round again, each with the local state it leaves. The
  loop has no bound, so it is a partial function: \<open>None\<close> is the loop that never ends.
\<close>

datatype ('r, 's) flow = Return 'r | Break 's | Continue 's

partial_function (option) for_loop :: "('s \<Rightarrow> ('r, 's) flow) \<Rightarrow> 's \<Rightarrow> ('r + 's) option" where
  "for_loop body s =
     (case body s of
        Return r \<Rightarrow> Some (Inl r)
      | Break s' \<Rightarrow> Some (Inr s')
      | Continue s' \<Rightarrow> for_loop body s')"

text \<open>
  The state at the start of pass \<open>k\<close> (counting from 0), if the loop gets that far.
\<close>

fun pass_state :: "('s \<Rightarrow> ('r, 's) flow) \<Rightarrow> nat \<Rightarrow> 's \<Rightarrow> 's option" where
  "pass_state body 0 s = Some s"
| "pass_state body (Suc k) s =
     (case body s of Continue s' \<Rightarrow> pass_state body k s' | _ \<Rightarrow> None)"

subsection \<open>GetApplications\<close>

text \<open>
  The loop's locals are the aggregate page, the continuation token and the world. The
  first argument is the JSON codec for \<^verbatim>\<open>ApplicationItemsPage\<close>.
\<close>

definition GetApplications_pass ::
  "(string \<Rightarrow> string + ApplicationItemsPage) \<Rightarrow> 's ServiceFabricClient
     \<Rightarrow> ApplicationItemsPage \<times> string \<times> 's world
     \<Rightarrow> ((ApplicationItemsPage option \<times> error option) \<times> 's world,
          ApplicationItemsPage \<times> string \<times> 's world) flow" where
  "GetApplications_pass codec c = (\<lambda>(aggregateAppItemsPages, continueToken, w).
     case getHTTP c ''Applications/'' [withContinue continueToken] w of
       ((res, Some err), w1) \<Rightarrow> Return ((None, Some err), w1)
     | ((res, None), w1) \<Rightarrow>
         (case json_Unmarshal codec res w1 of
            (Inl err, w2) \<Rightarrow> Return ((None, Some (JSONDeserialise err)), w2)
          | (Inr appItemsPage, w2) \<Rightarrow>
              let aggregateAppItemsPages =
                    aggregateAppItemsPages\<lparr>ApplicationItemsPage.Items :=
                      ApplicationItemsPage.Items aggregateAppItemsPages
                        @ ApplicationItemsPage.Items appItemsPage\<rparr>;
                  continueToken = getString (ApplicationItemsPage.ContinuationToken appItemsPage)
              in if continueToken = '''' then Break (aggregateAppItemsPages, continueToken, w2)
                 else Continue (aggregateAppItemsPages, continueToken, w2)))"

definition GetApplications ::
  "(string \<Rightarrow> string + ApplicationItemsPage) \<Rightarrow> 's ServiceFabricClient \<Rightarrow> 's world
     \<Rightarrow> ((ApplicationItemsPage option \<times> error option) \<times> 's world) option" where
  "GetApplications codec c w =
     (case for_loop (GetApplications_pass codec c)
             (\<lparr>ApplicationItemsPage.ContinuationToken = None, ApplicationItemsPage.Items = []\<rparr>, '''', w) of
        None \<Rightarrow> None
      | Some (Inl r) \<Rightarrow> Some r
      | Some (Inr (aggregateAppItemsPages, continueToken, w')) \<Rightarrow>
          Some ((Some aggregateAppItemsPages, None), w'))"

subsection \<open>GetServices\<close>

definition GetServices_pass ::
  "(string \<Rightarrow> string + ServiceItemsPage) \<Rightarrow> 's ServiceFabricClient \<Rightarrow> string
     \<Rightarrow> ServiceItemsPage \<times> string \<times> 's world
     \<Rightarrow> ((ServiceItemsPage option \<times> error option) \<times> 's world,
          ServiceItemsPage \<times> string \<times> 's world) flow" where
  "GetServices_pass codec c appName = (\<lambda>(aggregateServiceItemsPages, continueToken, w).
     case getHTTP c (''Applications/'' @ appName @ ''/$/GetServices'') [withContinue continueToken] w of
       ((res, Some err), w1) \<Rightarrow> Return ((None, Some err), w1)
     | ((res, None), w1) \<Rightarrow>
         (case json_Unmarshal codec res w1 of
            (Inl err, w2) \<Rightarrow> Return ((None, Some (JSONDeserialise err)), w2)
          | (Inr servicesItemsPage, w2) \<Rightarrow>
              let aggregateServiceItemsPages =
                    aggregateServiceItemsPages\<lparr>ServiceItemsPage.Items :=
                      ServiceItemsPage.Items aggregateServiceItemsPages
                        @ ServiceItemsPage.Items servicesItemsPage\<rparr>;
                  continueToken = getString (ServiceItemsPage.ContinuationToken servicesItemsPage)
              in if continueToken = '''' then Break (aggregateServiceItemsPages, continueToken, w2)
                 else Continue (aggregateServiceItemsPages, continueToken, w2)))"

definition GetServices ::
  "(string \<Rightarrow> string + ServiceItemsPage) \<Rightarrow> 's ServiceFabricClient \<Rightarrow> string \<Rightarrow> 's world
     \<Rightarrow> ((ServiceItemsPage option \<times> error option) \<times> 's world) option" where
  "GetServices codec c appName w =
     (case for_loop (GetServices_pass codec c appName)
             (\<lparr>ServiceItemsPage.ContinuationToken = None, ServiceItemsPage.Items = []\<rparr>, '''', w) of
        None \<Rightarrow> None
      | Some (Inl r) \<Rightarrow> Some r
      | Some (Inr (aggregateServiceItemsPages, continueToken, w')) \<Rightarrow>
          Some ((Some aggregateServiceItemsPages, None), w'))"

subsection \<open>GetClusterHealth\<close>

definition GetClusterHealth :: "'s ServiceFabricClient \<Rightarrow> 's world \<Rightarrow> (bool \<times> error option) \<times> 's world" where
  "GetClusterHealth c w =
     (case getHTTPRaw c ''/$/GetClusterHealth?api-version=6.0&'' w of
        ((res, Some err), w') \<Rightarrow> ((False, Some ClusterHealthFailed), w')
      | ((res, None), w') \<Rightarrow> ((res = StatusOK, None), w'))"

subsection \<open>GetServiceExtension and GetServiceExtensionMap\<close>

text \<open>
  The two nested \<^verbatim>\<open>range\<close> loops of \<^verbatim>\<open>GetServiceExtension\<close>. The inner one either returns from
  the function (\<open>Some\<close>: the error, the caller's target as it is left, the world) or runs
  to its end (\<open>None\<close>). \<open>EqualFold\<close> is \<^verbatim>\<open>strings.EqualFold\<close> of the standard library, a
  parameter; \<open>xml\<close> is the XML codec for the caller's target.
\<close>

fun range_Extensions ::
  "(string \<Rightarrow> string \<Rightarrow> bool) \<Rightarrow> (string \<Rightarrow> 'r \<Rightarrow> string option \<times> 'r) \<Rightarrow> KeyValuePair list
     \<Rightarrow> string \<Rightarrow> 'r \<Rightarrow> 's world \<Rightarrow> ((error option \<times> 'r) \<times> 's world) option" where
  "range_Extensions EqualFold xml [] extensionKey response w = None"
| "range_Extensions EqualFold xml (extension # rest) extensionKey response w =
     (if EqualFold (KeyValuePair.Key extension) extensionKey then
        (case xml_Unmarshal xml (KeyValuePair.Value extension) response w of
           ((Some err, response'), w') \<Rightarrow> Some ((Some (XMLDeserialise err), response'), w')
         | ((None, response'), w') \<Rightarrow> Some ((None, response'), w'))
      else range_Extensions EqualFold xml rest extensionKey response w)"

fun range_serviceTypes ::
  "(string \<Rightarrow> string \<Rightarrow> bool) \<Rightarrow> (string \<Rightarrow> 'r \<Rightarrow> string option \<times> 'r) \<Rightarrow> ServiceType list
     \<Rightarrow> string \<Rightarrow> string \<Rightarrow> 'r \<Rightarrow> 's world \<Rightarrow> (error option \<times> 'r) \<times> 's world" where
  "range_serviceTypes EqualFold xml [] serviceTypeName extensionKey response w =
     ((None, response), w)"
| "range_serviceTypes EqualFold xml (serviceTypeInfo # rest) serviceTypeName extensionKey response w =
     (if ServiceTypeName (ServiceTypeDescription serviceTypeInfo) = serviceTypeName then
        (case range_Extensions EqualFold xml (Extensions (ServiceTypeDescription serviceTypeInfo))
                extensionKey response w of
           Some r \<Rightarrow> r
         | None \<Rightarrow> range_serviceTypes EqualFold xml rest serviceTypeName extensionKey response w)
      else range_serviceTypes EqualFold xml rest serviceTypeName extensionKey response w)"

text \<open>
  \<^verbatim>\<open>GetServiceExtension\<close> returns its error together with the caller-supplied target
  \<open>response\<close> as the call leaves it.
\<close>

definition GetServiceExtension ::
  "(string \<Rightarrow> string \<Rightarrow> bool) \<Rightarrow> (string \<Rightarrow> string + ServiceType list)
     \<Rightarrow> (string \<Rightarrow> 'r \<Rightarrow> string option \<times> 'r) \<Rightarrow> 's ServiceFabricClient
     \<Rightarrow> string \<Rightarrow> string \<Rightarrow> string \<Rightarrow> string \<Rightarrow> 'r \<Rightarrow> 's world
     \<Rightarrow> (error option \<times> 'r) \<times> 's world" where
  "GetServiceExtension EqualFold codec xml c appType applicationVersion serviceTypeName
       extensionKey response w =
     (case getHTTP c (''ApplicationTypes/'' @ appType @ ''/$/GetServiceTypes'')
             [withParam ''ApplicationTypeVersion'' applicationVersion] w of
        ((res, Some err), w1) \<Rightarrow> ((Some (ServiceExtensionsRequest err), response), w1)
      | ((res, None), w1) \<Rightarrow>
          (case json_Unmarshal codec res w1 of
             (Inl err, w2) \<Rightarrow> ((Some (JSONDeserialise err), response), w2)
           | (Inr serviceTypes, w2) \<Rightarrow>
               range_serviceTypes EqualFold xml serviceTypes serviceTypeName extensionKey
                 response w2))"

text \<open>The \<^verbatim>\<open>range extensionData.Label\<close> loop: \<^verbatim>\<open>labels[label.Key] = label.Value\<close>.\<close>

fun range_Label :: "Label list \<Rightarrow> (string \<rightharpoonup> string) \<Rightarrow> (string \<rightharpoonup> string)" where
  "range_Label [] labels = labels"
| "range_Label (label # rest) labels =
     range_Label rest (labels(Label.Key label \<mapsto> Label.Value label))"

text \<open>
  \<^verbatim>\<open>service\<close> and \<^verbatim>\<open>app\<close> are pointers, dereferenced while the arguments of the call are
  evaluated: a nil one panics, which is the result \<open>None\<close>. The test
  \<^verbatim>\<open>extensionData.Label != nil\<close> is the test for a non-empty list here: over an empty non-nil
  slice the loop runs no pass, as over nil.
\<close>

definition GetServiceExtensionMap ::
  "(string \<Rightarrow> string \<Rightarrow> bool) \<Rightarrow> (string \<Rightarrow> string + ServiceType list)
     \<Rightarrow> (string \<Rightarrow> ServiceExtensionLabels \<Rightarrow> string option \<times> ServiceExtensionLabels)
     \<Rightarrow> 's ServiceFabricClient \<Rightarrow> ServiceItem option \<Rightarrow> ApplicationItem option \<Rightarrow> string
     \<Rightarrow> 's world \<Rightarrow> (((string \<rightharpoonup> string) option \<times> error option) \<times> 's world) option" where
  "GetServiceExtensionMap EqualFold codec xml c service app extensionKey w =
     (case app of
        None \<Rightarrow> None
      | Some app' \<Rightarrow>
          (case service of
             None \<Rightarrow> None
           | Some service' \<Rightarrow>
               let extensionData = \<lparr>Label = []\<rparr> in
               (case GetServiceExtension EqualFold codec xml c (ApplicationItem.TypeName app')
                       (TypeVersion app') (ServiceItem.TypeName service') extensionKey
                       extensionData w of
                  ((Some err, extensionData), w') \<Rightarrow> Some ((None, Some err), w')
                | ((None, extensionData), w') \<Rightarrow>
                    let labels = Map.empty;
                        labels = (if Label extensionData \<noteq> []
                                  then range_Label (Label extensionData) labels else labels)
                    in Some ((Some labels, None), w'))))"

subsection \<open>GetProperties\<close>

definition nameExists ::
  "'s ServiceFabricClient \<Rightarrow> string \<Rightarrow> 's world \<Rightarrow> (bool \<times> error option) \<times> 's world" where
  "nameExists c propertyName w =
     (case getHTTPRaw c (''Names/'' @ propertyName) w of
        ((res, Some err), w') \<Rightarrow> ((False, Some err), w')
      | ((res, None), w') \<Rightarrow> ((res = StatusOK, None), w'))"

text \<open>The \<^verbatim>\<open>range propertiesListPage.Properties\<close> loop with its \<^verbatim>\<open>continue\<close>.\<close>

fun range_Properties :: "Property list \<Rightarrow> (string \<rightharpoonup> string) \<Rightarrow> (string \<rightharpoonup> string)" where
  "range_Properties [] properties = properties"
| "range_Properties (property # rest) properties =
     (if PropValue.Kind (Property.Value property) \<noteq> ''String'' then range_Properties rest properties
      else range_Properties rest
             (properties(Property.Name property \<mapsto> Data (Property.Value property))))"

definition GetProperties_pass ::
  "(string \<Rightarrow> string + PropertiesListPage) \<Rightarrow> 's ServiceFabricClient \<Rightarrow> string
     \<Rightarrow> (string \<rightharpoonup> string) \<times> string \<times> 's world
     \<Rightarrow> ((bool \<times> (string \<rightharpoonup> string) option \<times> error option) \<times> 's world,
          (string \<rightharpoonup> string) \<times> string \<times> 's world) flow" where
  "GetProperties_pass codec c name = (\<lambda>(properties, continueToken, w).
     case getHTTP c (''Names/'' @ name @ ''/$/GetProperties'')
            [withContinue continueToken, withParam ''IncludeValues'' ''true''] w of
       ((res, Some err), w1) \<Rightarrow> Return ((False, None, Some err), w1)
     | ((res, None), w1) \<Rightarrow>
         (case json_Unmarshal codec res w1 of
            (Inl err, w2) \<Rightarrow> Return ((False, None, Some (JSONDeserialise err)), w2)
          | (Inr propertiesListPage, w2) \<Rightarrow>
              let properties = range_Properties (Properties propertiesListPage) properties;
                  continueToken = PropertiesListPage.ContinuationToken propertiesListPage
              in if continueToken = '''' then Break (properties, continueToken, w2)
                 else Continue (properties, continueToken, w2)))"

definition GetProperties ::
  "(string \<Rightarrow> string + PropertiesListPage) \<Rightarrow> 's ServiceFabricClient \<Rightarrow> string \<Rightarrow> 's world
     \<Rightarrow> ((bool \<times> (string \<rightharpoonup> string) option \<times> error option) \<times> 's world) option" where
  "GetProperties codec c name w =
     (case nameExists c name w of
        ((nameExists', Some err), w1) \<Rightarrow> Some ((False, None, Some err), w1)
      | ((nameExists', None), w1) \<Rightarrow>
          if \<not> nameExists' then Some ((False, None, None), w1)
          else
            (case for_loop (GetProperties_pass codec c name) (Map.empty, '''', w1) of
               None \<Rightarrow> None
             | Some (Inl r) \<Rightarrow> Some r
             | Some (Inr (properties, continueToken, w2)) \<Rightarrow>
                 Some ((True, Some properties, None), w2)))"

section \<open>Observations used by the properties\<close>

text \<open>
  What one pass of a pagination loop meets when it fetches and decodes a page: the fetch
  fails, the body does not decode, or a page arrives whose continuation token (read by
  \<open>token\<close>) is empty or not.
\<close>

datatype met = FetchFailed | DecodeFailed | TokenEmpty | TokenPresent

definition fetched ::
  "(string \<Rightarrow> string + 'p) \<Rightarrow> ('p \<Rightarrow> string) \<Rightarrow> 's ServiceFabricClient \<Rightarrow> string
     \<Rightarrow> queryParamsFunc list \<Rightarrow> 's world \<Rightarrow> met" where
  "fetched codec token c basePath paramsFuncs w =
     (case getHTTP c basePath paramsFuncs w of
        ((res, Some err), w1) \<Rightarrow> FetchFailed
      | ((res, None), w1) \<Rightarrow>
          (case codec res of
             Inl err \<Rightarrow> DecodeFailed
           | Inr page \<Rightarrow> if token page = '''' then TokenEmpty else TokenPresent))"

text \<open>
  The extensions \<^verbatim>\<open>GetServiceExtension\<close> considers, in scan order: those of every service
  type named \<open>serviceTypeName\<close> exactly whose key folds to \<open>extensionKey\<close>.
\<close>

definition matching_extensions ::
  "(string \<Rightarrow> string \<Rightarrow> bool) \<Rightarrow> ServiceType list \<Rightarrow> string \<Rightarrow> string \<Rightarrow> KeyValuePair list" where
  "matching_extensions EqualFold serviceTypes serviceTypeName extensionKey =
     filter (\<lambda>extension. EqualFold (KeyValuePair.Key extension) extensionKey)
       (concat (map (\<lambda>serviceTypeInfo. Extensions (ServiceTypeDescription serviceTypeInfo))
          (filter (\<lambda>serviceTypeInfo.
             ServiceTypeName (ServiceTypeDescription serviceTypeInfo) = serviceTypeName)
             serviceTypes)))"

text \<open>The (Name, Data) pairs of the properties of kind \<^verbatim>\<open>"String"\<close>, in order.\<close>

definition string_pairs :: "Property list \<Rightarrow> (string \<times> string) list" where
  "string_pairs ps =
     map (\<lambda>property. (Property.Name property, Data (Property.Value property)))
       (filter (\<lambda>property. PropValue.Kind (Property.Value property) = ''String'') ps)"

text \<open>The world after one more request has been served and the remote side has moved to \<open>t\<close>.\<close>

definition served :: "'s world \<Rightarrow> string \<Rightarrow> string \<Rightarrow> 's \<Rightarrow> 's world" where
  "served w method url t = w\<lparr>remote := t, requests := requests w @ [(method, url)]\<rparr>"

section \<open>Test doubles\<close>

text \<open>
  A scripted transport: the remote side's state is the list of responses still to be
  served, one per request whatever the request is; when the script is exhausted the
  transport fails. A constant transport: it serves the same response for ever.
\<close>

definition scripted :: "(response list) HTTPClient" where
  "scripted script method url =
     (case script of [] \<Rightarrow> (Inl ''script exhausted'', []) | r # rest \<Rightarrow> (r, rest))"

definition always :: "response \<Rightarrow> unit HTTPClient" where
  "always r s method url = (r, s)"

definition sf_client :: "'s HTTPClient \<Rightarrow> 's ServiceFabricClient" where
  "sf_client h = \<lparr>endpoint = ''http://sf:19080'', apiVersion = ''3.0'', httpClient = Some h\<rparr>"

definition fresh :: "'s \<Rightarrow> 's world" where
  "fresh s = \<lparr>remote = s, requests = [], decoded = []\<rparr>"

definition app_item :: "string \<Rightarrow> ApplicationItem" where
  "app_item n =
     \<lparr>ApplicationItem.HealthState = ''Ok'', ApplicationItem.ID = n, ApplicationItem.Name = n,
      Parameters = [], Status = ''Ready'', ApplicationItem.TypeName = ''AppType'',
      TypeVersion = ''1.0''\<rparr>"

definition svc_item :: "string \<Rightarrow> ServiceItem" where
  "svc_item n =
     \<lparr>ServiceItem.HasPersistedState = False, ServiceItem.HealthState = ''Ok'', ServiceItem.ID = n,
      ServiceItem.IsServiceGroup = False, ManifestVersion = ''1.0'', ServiceItem.Name = n,
      ServiceKind = ''Stateless'', ServiceStatus = ''Active'', ServiceItem.TypeName = ''WebType''\<rparr>"

definition prop_item :: "string \<Rightarrow> string \<Rightarrow> string \<Rightarrow> Property" where
  "prop_item n k d =
     \<lparr>Metadata = \<lparr>CustomTypeID = '''', LastModifiedUtcTimestamp = '''', Parent = '''',
                  SequenceNumber = '''', SizeInBytes = 0, TypeID = k\<rparr>,
      Property.Name = n, Property.Value = \<lparr>Data = d, PropValue.Kind = k\<rparr>\<rparr>"

definition svc_type :: "string \<Rightarrow> KeyValuePair list \<Rightarrow> ServiceType" where
  "svc_type n exts =
     \<lparr>ServiceTypeDescription =
        \<lparr>IsStateful = False, ServiceTypeName = n, PlacementConstraints = '''',
         ServiceTypeDescription.HasPersistedState = False, ServiceTypeDescription.Kind = ''Stateless'',
         Extensions = exts, LoadMetrics = [], ServicePlacementPolicies = []\<rparr>,
      ServiceManifestVersion = ''1.0'', ServiceManifestName = ''Pkg'',
      ServiceType.IsServiceGroup = False\<rparr>"

text \<open>Toy codecs for the test doubles: each knows a few bodies and rejects the rest.\<close>

definition apps_codec :: "string \<Rightarrow> string + ApplicationItemsPage" where
  "apps_codec body =
     (if body = ''page1'' then
        Inr \<lparr>ApplicationItemsPage.ContinuationToken = Some ''t1'',
             ApplicationItemsPage.Items = [app_item ''a'', app_item ''b'']\<rparr>
      else if body = ''page2'' then
        Inr \<lparr>ApplicationItemsPage.ContinuationToken = None,
             ApplicationItemsPage.Items = [app_item ''a'']\<rparr>
      else Inl ''unexpected end of JSON input'')"

definition svcs_codec :: "string \<Rightarrow> string + ServiceItemsPage" where
  "svcs_codec body =
     (if body = ''page1'' then
        Inr \<lparr>ServiceItemsPage.ContinuationToken = Some ''t1'',
             ServiceItemsPage.Items = [svc_item ''s'']\<rparr>
      else if body = ''page2'' then
        Inr \<lparr>ServiceItemsPage.ContinuationToken = Some '''', ServiceItemsPage.Items = []\<rparr>
      else Inl ''unexpected end of JSON input'')"

definition props_codec :: "string \<Rightarrow> string + PropertiesListPage" where
  "props_codec body =
     (if body = ''page1'' then
        Inr \<lparr>PropertiesListPage.ContinuationToken = ''t1'', IsConsistent = True,
             Properties = [prop_item ''a'' ''String'' ''x'', prop_item ''b'' ''Int64'' ''5'']\<rparr>
      else if body = ''page2'' then
        Inr \<lparr>PropertiesListPage.ContinuationToken = '''', IsConsistent = True,
             Properties = [prop_item ''a'' ''String'' ''y'', prop_item ''c'' ''string'' ''z'']\<rparr>
      else if body = ''single'' then
        Inr \<lparr>PropertiesListPage.ContinuationToken = '''', IsConsistent = True,
             Properties = [prop_item ''a'' ''String'' ''x'', prop_item ''b'' ''Int64'' ''5'']\<rparr>
      else Inl ''unexpected end of JSON input'')"

definition types_codec :: "string \<Rightarrow> string + ServiceType list" where
  "types_codec body =
     (if body = ''types'' then
        Inr [svc_type ''Other'' [\<lparr>KeyValuePair.Key = ''Traefik'', KeyValuePair.Value = ''<o/>''\<rparr>],
             svc_type ''WebType'' [\<lparr>KeyValuePair.Key = ''Other'', KeyValuePair.Value = ''<x/>''\<rparr>,
                                   \<lparr>KeyValuePair.Key = ''TRAEFIK'', KeyValuePair.Value = ''<Labels/>''\<rparr>,
                                   \<lparr>KeyValuePair.Key = ''traefik'', KeyValuePair.Value = ''<late/>''\<rparr>]]
      else Inl ''unexpected end of JSON input'')"

definition labels_codec :: "string \<Rightarrow> ServiceExtensionLabels \<Rightarrow> string option \<times> ServiceExtensionLabels" where
  "labels_codec text target =
     (if text = ''<Labels/>'' then
        (None, target\<lparr>Label := Label target
            @ [\<lparr>Label.Value = ''prod'', Label.Key = ''env''\<rparr>,
               \<lparr>Label.Value = ''80'', Label.Key = ''port''\<rparr>,
               \<lparr>Label.Value = ''test'', Label.Key = ''env''\<rparr>]\<rparr>)
      else (Some ''EOF'', target))"

text \<open>\<^verbatim>\<open>strings.EqualFold\<close> on ASCII text, for the test doubles.\<close>

definition ascii_lower :: "char \<Rightarrow> char" where
  "ascii_lower ch =
     (case map_of (zip ''ABCDEFGHIJKLMNOPQRSTUVWXYZ'' ''abcdefghijklmnopqrstuvwxyz'') ch of
        None \<Rightarrow> ch
      | Some l \<Rightarrow> l)"

definition ascii_EqualFold :: "string \<Rightarrow> string \<Rightarrow> bool" where
  "ascii_EqualFold s t = (map ascii_lower s = map ascii_lower t)"

section \<open>Facts about the loop combinator\<close>

lemma for_loop_Return: "body s = Return r \<Longrightarrow> for_loop body s = Some (Inl r)"
  by (subst for_loop.simps) simp

lemma for_loop_Break: "body s = Break s' \<Longrightarrow> for_loop body s = Some (Inr s')"
  by (subst for_loop.simps) simp

lemma for_loop_Continue: "body s = Continue s' \<Longrightarrow> for_loop body s = for_loop body s'"
  by (subst for_loop.simps) simp

lemma for_loop_pass_state:
  "pass_state body k s = Some sk \<Longrightarrow> for_loop body s = for_loop body sk"
proof (induction k arbitrary: s)
  case 0
  then show ?case by simp
next
  case (Suc k)
  then obtain s1 where c: "body s = Continue s1" and p: "pass_state body k s1 = Some sk"
    by (auto split: flow.splits)
  from Suc.IH [OF p] for_loop_Continue [of body s s1] c show ?case by simp
qed

lemma for_loop_Some_pass:
  "for_loop body s = Some x \<Longrightarrow>
     \<exists>k sk. pass_state body k s = Some sk \<and> (\<forall>s'. body sk \<noteq> Continue s')"
proof (induction rule: for_loop.raw_induct [rotated 1, consumes 1, case_names step])
  case (step loop body s x)
  show ?case
  proof (cases "body s")
    case (Return r)
    then have "pass_state body 0 s = Some s \<and> (\<forall>s'. body s \<noteq> Continue s')" by simp
    then show ?thesis by blast
  next
    case (Break b)
    then have "pass_state body 0 s = Some s \<and> (\<forall>s'. body s \<noteq> Continue s')" by simp
    then show ?thesis by blast
  next
    case (Continue s1)
    with step(2) have "loop body s1 = Some x" by simp
    from step(1) [OF this] obtain k sk
      where "pass_state body k s1 = Some sk" "\<forall>s'. body sk \<noteq> Continue s'"
      by blast
    with Continue have "pass_state body (Suc k) s = Some sk \<and> (\<forall>s'. body sk \<noteq> Continue s')"
      by simp
    then show ?thesis by blast
  qed
qed

lemma for_loop_terminates_iff:
  "for_loop body s \<noteq> None \<longleftrightarrow>
     (\<exists>k sk. pass_state body k s = Some sk \<and> (\<forall>s'. body sk \<noteq> Continue s'))"
proof
  assume "for_loop body s \<noteq> None"
  then obtain x where "for_loop body s = Some x" by auto
  then show "\<exists>k sk. pass_state body k s = Some sk \<and> (\<forall>s'. body sk \<noteq> Continue s')"
    by (rule for_loop_Some_pass)
next
  assume "\<exists>k sk. pass_state body k s = Some sk \<and> (\<forall>s'. body sk \<noteq> Continue s')"
  then obtain k sk where p: "pass_state body k s = Some sk" and n: "\<forall>s'. body sk \<noteq> Continue s'"
    by blast
  have "for_loop body sk \<noteq> None"
    using n by (cases "body sk") (simp_all add: for_loop_Return for_loop_Break)
  with for_loop_pass_state [OF p] show "for_loop body s \<noteq> None" by simp
qed

section \<open>Facts about the transport adapter\<close>

lemma Run_served:
  "h (remote w) method url = (r, t) \<Longrightarrow> Run h method url w = (r, served w method url t)"
  by (simp add: Run_def served_def)

lemma getHTTP_served:
  assumes "httpClient c = Some h"
      and "h (remote w) ''GET'' (getURL c basePath pfs) = (Inr (payload, status), t)"
  shows "getHTTP c basePath pfs w =
           (if status \<noteq> 200 then ('''', Some (ErrorCode status (getURL c basePath pfs)))
            else if payload = '''' then ('''', Some EmptyResponseBody)
            else (payload, None),
            served w ''GET'' (getURL c basePath pfs) t)"
  using assms by (simp add: getHTTP_def Run_served StatusOK_def Let_def)

lemma getHTTPRaw_served:
  assumes "httpClient c = Some h"
      and "h (remote w) ''GET'' (getURL c basePath []) = (Inr (payload, status), t)"
  shows "getHTTPRaw c basePath w = ((status, None), served w ''GET'' (getURL c basePath []) t)"
  using assms by (simp add: getHTTPRaw_def Run_served Let_def)

lemma getURL_plain:
  "getURL c basePath [] = endpoint c @ ''/'' @ basePath @ ''?api-version='' @ apiVersion c"
  by (simp add: getURL_def)

section \<open>Construction\<close>

text \<open>
  C8. \<^verbatim>\<open>NewServiceFabricClient\<close> with an empty endpoint fails with the configuration error and
  returns no client, whatever the version; with a non-empty endpoint and an empty version
  it succeeds and the client's version is \<^verbatim>\<open>"3.0"\<close>; with both non-empty it succeeds and
  the client holds the given version unchanged. The endpoint and the transport are stored
  as given.
\<close>

theorem NewServiceFabricClient_cases:
  "NewServiceFabricClient h '''' v = (None, Some EndpointMissing) \<and>
   (e \<noteq> '''' \<longrightarrow>
      NewServiceFabricClient h e '''' =
        (Some \<lparr>endpoint = e, apiVersion = ''3.0'', httpClient = h\<rparr>, None)) \<and>
   (e \<noteq> '''' \<longrightarrow> v \<noteq> '''' \<longrightarrow>
      NewServiceFabricClient h e v = (Some \<lparr>endpoint = e, apiVersion = v, httpClient = h\<rparr>, None))"
  by (simp add: NewServiceFabricClient_def DefaultAPIVersion_def)

theorem NewServiceFabricClient_cases_witness:
  "NewServiceFabricClient (Some scripted) '''' ''6.0'' = (None, Some EndpointMissing) \<and>
   NewServiceFabricClient (Some scripted) ''http://sf:19080'' '''' =
     (Some \<lparr>endpoint = ''http://sf:19080'', apiVersion = ''3.0'', httpClient = Some scripted\<rparr>,
      None) \<and>
   NewServiceFabricClient (Some scripted) ''http://sf:19080'' ''6.0'' =
     (Some \<lparr>endpoint = ''http://sf:19080'', apiVersion = ''6.0'', httpClient = Some scripted\<rparr>,
      None)"
  using NewServiceFabricClient_cases [of "Some scripted" "''6.0''" "''http://sf:19080''"]
  by simp

section \<open>GetProperties on a name that does not resolve\<close>

text \<open>
  C2. When the existence probe, the GET of \<^verbatim>\<open>Names/{name}\<close>, is answered without a
  transport error and with a status other than 200, \<^verbatim>\<open>GetProperties\<close> returns
  \<^verbatim>\<open>(false, nil, nil)\<close>, and the probe is the only request it has issued: no
  \<^verbatim>\<open>GetProperties\<close> page is fetched.
\<close>

theorem GetProperties_absent_name:
  assumes "httpClient c = Some h"
      and "h (remote w) ''GET'' (endpoint c @ ''/Names/'' @ name @ ''?api-version='' @ apiVersion c)
             = (Inr (payload, status), t)"
      and "status \<noteq> 200"
  shows "GetProperties codec c name w =
           Some ((False, None, None),
                 w\<lparr>remote := t,
                   requests := requests w
                     @ [(''GET'', endpoint c @ ''/Names/'' @ name @ ''?api-version='' @ apiVersion c)]\<rparr>)"
proof -
  have "getHTTPRaw c (''Names/'' @ name) w =
          ((status, None), served w ''GET'' (getURL c (''Names/'' @ name) []) t)"
    using assms(1,2) getHTTPRaw_served [of c h w "''Names/'' @ name" payload status t]
    by (simp add: getURL_plain)
  then show ?thesis
    using assms(3)
    by (simp add: GetProperties_def nameExists_def StatusOK_def served_def getURL_plain)
qed

theorem GetProperties_absent_name_witness:
  "GetProperties props_codec (sf_client scripted) ''fabric:/app''
       (fresh [Inr (''no such name'', 404), Inr (''page1'', 200)]) =
     Some ((False, None, None),
           \<lparr>remote = [Inr (''page1'', 200)],
            requests = [(''GET'', ''http://sf:19080/Names/fabric:/app?api-version=3.0'')],
            decoded = []\<rparr>)"
  using GetProperties_absent_name [of "sf_client scripted" scripted
      "fresh [Inr (''no such name'', 404), Inr (''page1'', 200)]" "''fabric:/app''"
      "''no such name''" 404 "[Inr (''page1'', 200)]" props_codec]
  by (simp add: sf_client_def fresh_def scripted_def)

section \<open>GetClusterHealth\<close>

text \<open>
  C5, as the code has it. \<^verbatim>\<open>GetClusterHealth\<close> issues exactly one GET, to the URL
  \<^verbatim>\<open>{endpoint}//$/GetClusterHealth?api-version=6.0&?api-version={configured version}\<close>: the
  hard-coded \<^verbatim>\<open>api-version=6.0\<close> of the base path comes first, and \<^verbatim>\<open>getURL\<close> still appends the
  client's configured version after it. Whenever that probe is answered at all, with
  whatever body, the call returns true exactly when the status code is 200, with a nil
  error.
\<close>

theorem GetClusterHealth_probe:
  assumes "httpClient c = Some h"
  shows "requests (snd (GetClusterHealth c w)) =
           requests w
             @ [(''GET'', endpoint c @ ''//$/GetClusterHealth?api-version=6.0&?api-version=''
                            @ apiVersion c)] \<and>
         (h (remote w) ''GET''
              (endpoint c @ ''//$/GetClusterHealth?api-version=6.0&?api-version='' @ apiVersion c)
            = (Inr (payload, status), t) \<longrightarrow>
          GetClusterHealth c w =
            ((status = 200, None),
             served w ''GET''
               (endpoint c @ ''//$/GetClusterHealth?api-version=6.0&?api-version='' @ apiVersion c)
               t))"
proof -
  let ?url = "endpoint c @ ''//$/GetClusterHealth?api-version=6.0&?api-version='' @ apiVersion c"
  have u: "getURL c ''/$/GetClusterHealth?api-version=6.0&'' [] = ?url"
    by (simp add: getURL_plain)
  obtain r t' where run: "h (remote w) ''GET'' ?url = (r, t')"
    by (cases "h (remote w) ''GET'' ?url")
  have 1: "requests (snd (GetClusterHealth c w)) = requests w @ [(''GET'', ?url)]"
  proof (cases r)
    case (Inl err)
    with run assms show ?thesis
      by (simp add: GetClusterHealth_def getHTTPRaw_def Run_served served_def u Let_def)
  next
    case (Inr answer)
    with run assms show ?thesis
      by (cases answer)
         (simp add: GetClusterHealth_def getHTTPRaw_def Run_served served_def u Let_def)
  qed
  have 2: "h (remote w) ''GET'' ?url = (Inr (payload, status), t) \<longrightarrow>
             GetClusterHealth c w = ((status = 200, None), served w ''GET'' ?url t)"
  proof
    assume a: "h (remote w) ''GET'' ?url = (Inr (payload, status), t)"
    have "getHTTPRaw c ''/$/GetClusterHealth?api-version=6.0&'' w =
            ((status, None), served w ''GET'' ?url t)"
      using assms a
        getHTTPRaw_served [of c h w "''/$/GetClusterHealth?api-version=6.0&''" payload status t]
      by (simp add: u)
    then show "GetClusterHealth c w = ((status = 200, None), served w ''GET'' ?url t)"
      by (simp add: GetClusterHealth_def StatusOK_def)
  qed
  from 1 2 show ?thesis by blast
qed

theorem GetClusterHealth_probe_witness:
  "GetClusterHealth (sf_client scripted) (fresh [Inr (''{}'', 200)]) =
     ((True, None),
      \<lparr>remote = [],
       requests = [(''GET'', ''http://sf:19080//$/GetClusterHealth?api-version=6.0&?api-version=3.0'')],
       decoded = []\<rparr>) \<and>
   GetClusterHealth (sf_client scripted) (fresh [Inr (''{}'', 404)]) =
     ((False, None),
      \<lparr>remote = [],
       requests = [(''GET'', ''http://sf:19080//$/GetClusterHealth?api-version=6.0&?api-version=3.0'')],
       decoded = []\<rparr>)"
  using GetClusterHealth_probe [of "sf_client scripted" scripted "fresh [Inr (''{}'', 200)]"
          "''{}''" 200 "[]"]
        GetClusterHealth_probe [of "sf_client scripted" scripted "fresh [Inr (''{}'', 404)]"
          "''{}''" 404 "[]"]
  by (simp add: sf_client_def fresh_def scripted_def served_def)

text \<open>
  The claim as stated fails in its second half: for a client configured with version
  \<^verbatim>\<open>9.9\<close> the probed URL carries the hard-coded \<^verbatim>\<open>api-version=6.0\<close> and the configured
  \<^verbatim>\<open>api-version=9.9\<close> as well, not the one rather than the other.
\<close>

theorem GetClusterHealth_configured_version_counterexample:
  "GetClusterHealth
       \<lparr>endpoint = ''http://sf:19080'', apiVersion = ''9.9'', httpClient = Some scripted\<rparr>
       (fresh [Inr (''{}'', 200)]) =
     ((True, None),
      \<lparr>remote = [],
       requests = [(''GET'', ''http://sf:19080//$/GetClusterHealth?api-version=6.0&?'' @
                             ''api-version='' @ ''9.9'')],
       decoded = []\<rparr>)"
  by (simp add: GetClusterHealth_def getHTTPRaw_def Run_def getURL_def fresh_def scripted_def
        StatusOK_def Let_def)

section \<open>One pass of a pagination loop\<close>

lemma GetApplications_pass_fetch_error:
  "getHTTP c ''Applications/'' [withContinue tok] w = ((res, Some err), w1) \<Longrightarrow>
     GetApplications_pass codec c (agg, tok, w) = Return ((None, Some err), w1)"
  by (simp add: GetApplications_pass_def)

lemma GetApplications_pass_decode_error:
  "getHTTP c ''Applications/'' [withContinue tok] w = ((res, None), w1) \<Longrightarrow> codec res = Inl e \<Longrightarrow>
     GetApplications_pass codec c (agg, tok, w) =
       Return ((None, Some (JSONDeserialise e)), w1\<lparr>decoded := decoded w1 @ [res]\<rparr>)"
  by (simp add: GetApplications_pass_def json_Unmarshal_def)

lemma GetApplications_pass_page:
  "getHTTP c ''Applications/'' [withContinue tok] w = ((res, None), w1) \<Longrightarrow> codec res = Inr p \<Longrightarrow>
     GetApplications_pass codec c (agg, tok, w) =
       (if getString (ApplicationItemsPage.ContinuationToken p) = '''' then Break else Continue)
         (agg\<lparr>ApplicationItemsPage.Items := ApplicationItemsPage.Items agg @ ApplicationItemsPage.Items p\<rparr>,
          getString (ApplicationItemsPage.ContinuationToken p),
          w1\<lparr>decoded := decoded w1 @ [res]\<rparr>)"
  by (simp add: GetApplications_pass_def json_Unmarshal_def Let_def)

lemma GetServices_pass_fetch_error:
  "getHTTP c (''Applications/'' @ appName @ ''/$/GetServices'') [withContinue tok] w = ((res, Some err), w1) \<Longrightarrow>
     GetServices_pass codec c appName (agg, tok, w) = Return ((None, Some err), w1)"
  by (simp add: GetServices_pass_def)

lemma GetServices_pass_decode_error:
  "getHTTP c (''Applications/'' @ appName @ ''/$/GetServices'') [withContinue tok] w = ((res, None), w1) \<Longrightarrow>
   codec res = Inl e \<Longrightarrow>
     GetServices_pass codec c appName (agg, tok, w) =
       Return ((None, Some (JSONDeserialise e)), w1\<lparr>decoded := decoded w1 @ [res]\<rparr>)"
  by (simp add: GetServices_pass_def json_Unmarshal_def)

lemma GetServices_pass_page:
  "getHTTP c (''Applications/'' @ appName @ ''/$/GetServices'') [withContinue tok] w = ((res, None), w1) \<Longrightarrow>
   codec res = Inr p \<Longrightarrow>
     GetServices_pass codec c appName (agg, tok, w) =
       (if getString (ServiceItemsPage.ContinuationToken p) = '''' then Break else Continue)
         (agg\<lparr>ServiceItemsPage.Items := ServiceItemsPage.Items agg @ ServiceItemsPage.Items p\<rparr>,
          getString (ServiceItemsPage.ContinuationToken p),
          w1\<lparr>decoded := decoded w1 @ [res]\<rparr>)"
  by (simp add: GetServices_pass_def json_Unmarshal_def Let_def)

lemma GetProperties_pass_fetch_error:
  "getHTTP c (''Names/'' @ name @ ''/$/GetProperties'')
     [withContinue tok, withParam ''IncludeValues'' ''true''] w = ((res, Some err), w1) \<Longrightarrow>
     GetProperties_pass codec c name (props, tok, w) = Return ((False, None, Some err), w1)"
  by (simp add: GetProperties_pass_def)

lemma GetProperties_pass_decode_error:
  "getHTTP c (''Names/'' @ name @ ''/$/GetProperties'')
     [withContinue tok, withParam ''IncludeValues'' ''true''] w = ((res, None), w1) \<Longrightarrow>
   codec res = Inl e \<Longrightarrow>
     GetProperties_pass codec c name (props, tok, w) =
       Return ((False, None, Some (JSONDeserialise e)), w1\<lparr>decoded := decoded w1 @ [res]\<rparr>)"
  by (simp add: GetProperties_pass_def json_Unmarshal_def)

lemma GetProperties_pass_page:
  "getHTTP c (''Names/'' @ name @ ''/$/GetProperties'')
     [withContinue tok, withParam ''IncludeValues'' ''true''] w = ((res, None), w1) \<Longrightarrow>
   codec res = Inr p \<Longrightarrow>
     GetProperties_pass codec c name (props, tok, w) =
       (if PropertiesListPage.ContinuationToken p = '''' then Break else Continue)
         (range_Properties (Properties p) props, PropertiesListPage.ContinuationToken p,
          w1\<lparr>decoded := decoded w1 @ [res]\<rparr>)"
  by (simp add: GetProperties_pass_def json_Unmarshal_def Let_def)

subsection \<open>A pass goes round again exactly when it meets a page with a token\<close>

lemma GetApplications_pass_Continue_iff:
  "(\<exists>s'. GetApplications_pass codec c (agg, tok, w) = Continue s') \<longleftrightarrow>
     fetched codec (\<lambda>p. getString (ApplicationItemsPage.ContinuationToken p)) c
       ''Applications/'' [withContinue tok] w = TokenPresent"
proof -
  obtain res e w1 where g: "getHTTP c ''Applications/'' [withContinue tok] w = ((res, e), w1)"
    by (metis prod.exhaust)
  show ?thesis
  proof (cases e)
    case (Some err)
    with g show ?thesis
      by (simp add: GetApplications_pass_fetch_error fetched_def)
  next
    case None
    show ?thesis
    proof (cases "codec res")
      case (Inl x)
      with g None show ?thesis
        by (simp add: GetApplications_pass_decode_error fetched_def)
    next
      case (Inr p)
      with g None show ?thesis
        by (simp add: GetApplications_pass_page fetched_def)
    qed
  qed
qed

lemma GetServices_pass_Continue_iff:
  "(\<exists>s'. GetServices_pass codec c appName (agg, tok, w) = Continue s') \<longleftrightarrow>
     fetched codec (\<lambda>p. getString (ServiceItemsPage.ContinuationToken p)) c
       (''Applications/'' @ appName @ ''/$/GetServices'') [withContinue tok] w = TokenPresent"
proof -
  obtain res e w1 where g:
    "getHTTP c (''Applications/'' @ appName @ ''/$/GetServices'') [withContinue tok] w = ((res, e), w1)"
    by (metis prod.exhaust)
  show ?thesis
  proof (cases e)
    case (Some err)
    with g show ?thesis
      by (simp add: GetServices_pass_fetch_error fetched_def)
  next
    case None
    show ?thesis
    proof (cases "codec res")
      case (Inl x)
      with g None show ?thesis
        by (simp add: GetServices_pass_decode_error fetched_def)
    next
      case (Inr p)
      with g None show ?thesis
        by (simp add: GetServices_pass_page fetched_def)
    qed
  qed
qed

lemma GetProperties_pass_Continue_iff:
  "(\<exists>s'. GetProperties_pass codec c name (props, tok, w) = Continue s') \<longleftrightarrow>
     fetched codec PropertiesListPage.ContinuationToken c
       (''Names/'' @ name @ ''/$/GetProperties'')
       [withContinue tok, withParam ''IncludeValues'' ''true''] w = TokenPresent"
proof -
  obtain res e w1 where g:
    "getHTTP c (''Names/'' @ name @ ''/$/GetProperties'')
       [withContinue tok, withParam ''IncludeValues'' ''true''] w = ((res, e), w1)"
    by (metis prod.exhaust)
  show ?thesis
  proof (cases e)
    case (Some err)
    with g show ?thesis
      by (simp add: GetProperties_pass_fetch_error fetched_def)
  next
    case None
    show ?thesis
    proof (cases "codec res")
      case (Inl x)
      with g None show ?thesis
        by (simp add: GetProperties_pass_decode_error fetched_def)
    next
      case (Inr p)
      with g None show ?thesis
        by (simp add: GetProperties_pass_page fetched_def)
    qed
  qed
qed

section \<open>Termination of the pagination loops\<close>

lemma loop_terminates_met:
  assumes "\<And>acc tok w. (\<exists>s'. body (acc, tok, w) = Continue s') \<longleftrightarrow> meets tok w = TokenPresent"
  shows "for_loop body s \<noteq> None \<longleftrightarrow>
           (\<exists>k acc tok wk. pass_state body k s = Some (acc, tok, wk) \<and>
              (meets tok wk = FetchFailed \<or> meets tok wk = DecodeFailed \<or> meets tok wk = TokenEmpty))"
proof -
  have m: "(\<forall>s'. body (acc, tok, w) \<noteq> Continue s') \<longleftrightarrow>
             (meets tok w = FetchFailed \<or> meets tok w = DecodeFailed \<or> meets tok w = TokenEmpty)"
    for acc tok w
    using assms [of acc tok w] by (cases "meets tok w") auto
  have "for_loop body s \<noteq> None \<longleftrightarrow>
          (\<exists>k sk. pass_state body k s = Some sk \<and> (\<forall>s'. body sk \<noteq> Continue s'))"
    by (rule for_loop_terminates_iff)
  also have "\<dots> \<longleftrightarrow> (\<exists>k acc tok wk. pass_state body k s = Some (acc, tok, wk) \<and>
                        (\<forall>s'. body (acc, tok, wk) \<noteq> Continue s'))"
    by auto
  finally show ?thesis by (simp only: m)
qed

lemma loop_unbounded:
  assumes "\<And>acc tok w. (\<exists>s'. body (acc, tok, w) = Continue s') \<longleftrightarrow> meets tok w = TokenPresent"
      and "\<forall>tok w. meets tok w = TokenPresent"
  shows "for_loop body s = None \<and> (\<forall>k. pass_state body k s \<noteq> None)"
proof -
  have c: "\<exists>s'. body x = Continue s'" for x
    using assms by (cases x) simp
  have p: "pass_state body k x \<noteq> None" for k x
  proof (induction k arbitrary: x)
    case 0
    show ?case by simp
  next
    case (Suc k)
    from c [of x] obtain s' where "body x = Continue s'" by blast
    with Suc [of s'] show ?case by simp
  qed
  have "for_loop body s = None"
  proof (rule ccontr)
    assume "for_loop body s \<noteq> None"
    then obtain k sk where "pass_state body k s = Some sk" "\<forall>s'. body sk \<noteq> Continue s'"
      using for_loop_terminates_iff [of body s] by blast
    with c [of sk] show False by blast
  qed
  with p show ?thesis by simp
qed

text \<open>
  C9, as the code has it. Each of the three pagination loops (of \<^verbatim>\<open>GetApplications\<close>,
  \<^verbatim>\<open>GetServices\<close> and \<^verbatim>\<open>GetProperties\<close>), started in any state, terminates if and only if it
  reaches a pass whose fetch returns an error, or whose fetched body fails to decode, or
  whose page carries an empty or absent continuation token. When every fetch, whatever
  the token and the world, delivers a page with a non-empty token, the loop reaches pass
  \<open>k\<close> for every \<open>k\<close> and the operation never returns.
\<close>

theorem pagination_terminates_iff:
  "(for_loop (GetApplications_pass codecA c) sA \<noteq> None \<longleftrightarrow>
      (\<exists>k acc tok wk. pass_state (GetApplications_pass codecA c) k sA = Some (acc, tok, wk) \<and>
         (fetched codecA (\<lambda>p. getString (ApplicationItemsPage.ContinuationToken p)) c
            ''Applications/'' [withContinue tok] wk = FetchFailed \<or>
          fetched codecA (\<lambda>p. getString (ApplicationItemsPage.ContinuationToken p)) c
            ''Applications/'' [withContinue tok] wk = DecodeFailed \<or>
          fetched codecA (\<lambda>p. getString (ApplicationItemsPage.ContinuationToken p)) c
            ''Applications/'' [withContinue tok] wk = TokenEmpty))) \<and>
   (for_loop (GetServices_pass codecS c appName) sS \<noteq> None \<longleftrightarrow>
      (\<exists>k acc tok wk. pass_state (GetServices_pass codecS c appName) k sS = Some (acc, tok, wk) \<and>
         (fetched codecS (\<lambda>p. getString (ServiceItemsPage.ContinuationToken p)) c
            (''Applications/'' @ appName @ ''/$/GetServices'') [withContinue tok] wk = FetchFailed \<or>
          fetched codecS (\<lambda>p. getString (ServiceItemsPage.ContinuationToken p)) c
            (''Applications/'' @ appName @ ''/$/GetServices'') [withContinue tok] wk = DecodeFailed \<or>
          fetched codecS (\<lambda>p. getString (ServiceItemsPage.ContinuationToken p)) c
            (''Applications/'' @ appName @ ''/$/GetServices'') [withContinue tok] wk = TokenEmpty))) \<and>
   (for_loop (GetProperties_pass codecP c name) sP \<noteq> None \<longleftrightarrow>
      (\<exists>k acc tok wk. pass_state (GetProperties_pass codecP c name) k sP = Some (acc, tok, wk) \<and>
         (fetched codecP PropertiesListPage.ContinuationToken c (''Names/'' @ name @ ''/$/GetProperties'')
            [withContinue tok, withParam ''IncludeValues'' ''true''] wk = FetchFailed \<or>
          fetched codecP PropertiesListPage.ContinuationToken c (''Names/'' @ name @ ''/$/GetProperties'')
            [withContinue tok, withParam ''IncludeValues'' ''true''] wk = DecodeFailed \<or>
          fetched codecP PropertiesListPage.ContinuationToken c (''Names/'' @ name @ ''/$/GetProperties'')
            [withContinue tok, withParam ''IncludeValues'' ''true''] wk = TokenEmpty))) \<and>
   ((\<forall>tok w'. fetched codecA (\<lambda>p. getString (ApplicationItemsPage.ContinuationToken p)) c
                ''Applications/'' [withContinue tok] w' = TokenPresent) \<longrightarrow>
      GetApplications codecA c w = None \<and>
      (\<forall>k. pass_state (GetApplications_pass codecA c) k
              (\<lparr>ApplicationItemsPage.ContinuationToken = None, ApplicationItemsPage.Items = []\<rparr>, '''', w)
            \<noteq> None)) \<and>
   ((\<forall>tok w'. fetched codecS (\<lambda>p. getString (ServiceItemsPage.ContinuationToken p)) c
                (''Applications/'' @ appName @ ''/$/GetServices'') [withContinue tok] w' = TokenPresent) \<longrightarrow>
      GetServices codecS c appName w = None \<and>
      (\<forall>k. pass_state (GetServices_pass codecS c appName) k
              (\<lparr>ServiceItemsPage.ContinuationToken = None, ServiceItemsPage.Items = []\<rparr>, '''', w)
            \<noteq> None)) \<and>
   ((\<forall>tok w'. fetched codecP PropertiesListPage.ContinuationToken c
                (''Names/'' @ name @ ''/$/GetProperties'')
                [withContinue tok, withParam ''IncludeValues'' ''true''] w' = TokenPresent) \<and>
    nameExists c name w = ((True, None), w1) \<longrightarrow>
      GetProperties codecP c name w = None \<and>
      (\<forall>k. pass_state (GetProperties_pass codecP c name) k (Map.empty, '''', w1) \<noteq> None))"
proof -
  let ?mA = "\<lambda>tok w. fetched codecA (\<lambda>p. getString (ApplicationItemsPage.ContinuationToken p)) c
                ''Applications/'' [withContinue tok] w"
  let ?mS = "\<lambda>tok w. fetched codecS (\<lambda>p. getString (ServiceItemsPage.ContinuationToken p)) c
                (''Applications/'' @ appName @ ''/$/GetServices'') [withContinue tok] w"
  let ?mP = "\<lambda>tok w. fetched codecP PropertiesListPage.ContinuationToken c
                (''Names/'' @ name @ ''/$/GetProperties'')
                [withContinue tok, withParam ''IncludeValues'' ''true''] w"
  have a: "for_loop (GetApplications_pass codecA c) sA \<noteq> None \<longleftrightarrow>
      (\<exists>k acc tok wk. pass_state (GetApplications_pass codecA c) k sA = Some (acc, tok, wk) \<and>
         (?mA tok wk = FetchFailed \<or> ?mA tok wk = DecodeFailed \<or> ?mA tok wk = TokenEmpty))"
    by (rule loop_terminates_met [where meets = ?mA]) (rule GetApplications_pass_Continue_iff)
  have s: "for_loop (GetServices_pass codecS c appName) sS \<noteq> None \<longleftrightarrow>
      (\<exists>k acc tok wk. pass_state (GetServices_pass codecS c appName) k sS = Some (acc, tok, wk) \<and>
         (?mS tok wk = FetchFailed \<or> ?mS tok wk = DecodeFailed \<or> ?mS tok wk = TokenEmpty))"
    by (rule loop_terminates_met [where meets = ?mS]) (rule GetServices_pass_Continue_iff)
  have p: "for_loop (GetProperties_pass codecP c name) sP \<noteq> None \<longleftrightarrow>
      (\<exists>k acc tok wk. pass_state (GetProperties_pass codecP c name) k sP = Some (acc, tok, wk) \<and>
         (?mP tok wk = FetchFailed \<or> ?mP tok wk = DecodeFailed \<or> ?mP tok wk = TokenEmpty))"
    by (rule loop_terminates_met [where meets = ?mP]) (rule GetProperties_pass_Continue_iff)
  have ua: "(\<forall>tok w'. ?mA tok w' = TokenPresent) \<longrightarrow>
      GetApplications codecA c w = None \<and>
      (\<forall>k. pass_state (GetApplications_pass codecA c) k
              (\<lparr>ApplicationItemsPage.ContinuationToken = None, ApplicationItemsPage.Items = []\<rparr>, '''', w)
            \<noteq> None)"
  proof
    assume h: "\<forall>tok w'. ?mA tok w' = TokenPresent"
    from loop_unbounded [where meets = ?mA and body = "GetApplications_pass codecA c", OF GetApplications_pass_Continue_iff h]
    show "GetApplications codecA c w = None \<and>
      (\<forall>k. pass_state (GetApplications_pass codecA c) k
              (\<lparr>ApplicationItemsPage.ContinuationToken = None, ApplicationItemsPage.Items = []\<rparr>, '''', w)
            \<noteq> None)"
      by (simp add: GetApplications_def)
  qed
  have us: "(\<forall>tok w'. ?mS tok w' = TokenPresent) \<longrightarrow>
      GetServices codecS c appName w = None \<and>
      (\<forall>k. pass_state (GetServices_pass codecS c appName) k
              (\<lparr>ServiceItemsPage.ContinuationToken = None, ServiceItemsPage.Items = []\<rparr>, '''', w)
            \<noteq> None)"
  proof
    assume h: "\<forall>tok w'. ?mS tok w' = TokenPresent"
    from loop_unbounded [where meets = ?mS and body = "GetServices_pass codecS c appName", OF GetServices_pass_Continue_iff h]
    show "GetServices codecS c appName w = None \<and>
      (\<forall>k. pass_state (GetServices_pass codecS c appName) k
              (\<lparr>ServiceItemsPage.ContinuationToken = None, ServiceItemsPage.Items = []\<rparr>, '''', w)
            \<noteq> None)"
      by (simp add: GetServices_def)
  qed
  have up: "(\<forall>tok w'. ?mP tok w' = TokenPresent) \<and> nameExists c name w = ((True, None), w1) \<longrightarrow>
      GetProperties codecP c name w = None \<and>
      (\<forall>k. pass_state (GetProperties_pass codecP c name) k (Map.empty, '''', w1) \<noteq> None)"
  proof
    assume "(\<forall>tok w'. ?mP tok w' = TokenPresent) \<and> nameExists c name w = ((True, None), w1)"
    then have h: "\<forall>tok w'. ?mP tok w' = TokenPresent" and n: "nameExists c name w = ((True, None), w1)"
      by simp_all
    from loop_unbounded [where meets = ?mP and body = "GetProperties_pass codecP c name", OF GetProperties_pass_Continue_iff h] n
    show "GetProperties codecP c name w = None \<and>
      (\<forall>k. pass_state (GetProperties_pass codecP c name) k (Map.empty, '''', w1) \<noteq> None)"
      by (simp add: GetProperties_def)
  qed
  from a s p ua us up show ?thesis by (intro conjI)
qed

theorem pagination_terminates_iff_witness:
  "GetApplications apps_codec (sf_client (always (Inr (''page1'', 200)))) (fresh ()) = None \<and>
   GetServices svcs_codec (sf_client (always (Inr (''page1'', 200)))) ''app'' (fresh ()) = None \<and>
   GetProperties props_codec (sf_client (always (Inr (''page1'', 200)))) ''n'' (fresh ()) = None"
  using pagination_terminates_iff [where codecA = apps_codec and codecS = svcs_codec
      and codecP = props_codec and c = "sf_client (always (Inr (''page1'', 200)))"
      and appName = "''app''" and name = "''n''" and w = "fresh ()"
      and ?w1.0 = "\<lparr>remote = (), requests = [(''GET'', ''http://sf:19080/Names/n?api-version=3.0'')],
                    decoded = []\<rparr>"]
  by (simp add: fetched_def getHTTP_def getHTTPRaw_def nameExists_def Run_def always_def
        sf_client_def fresh_def apps_codec_def svcs_codec_def props_codec_def getString_def
        StatusOK_def Let_def getURL_def)

text \<open>
  The claim as stated fails in its only-if half: a loop also terminates when a body does
  not decode. Here the single fetch returns no error, no page with an empty token is
  ever fetched, and the loop has terminated all the same, with the decoding error.
\<close>

theorem GetApplications_undecodable_counterexample:
  "GetApplications apps_codec (sf_client scripted) (fresh [Inr (''<html>'', 200)]) =
     Some ((None, Some (JSONDeserialise ''unexpected end of JSON input'')),
           \<lparr>remote = [], requests = [(''GET'', ''http://sf:19080/Applications/?api-version=3.0'')],
            decoded = [''<html>'']\<rparr>) \<and>
   fetched apps_codec (\<lambda>p. getString (ApplicationItemsPage.ContinuationToken p)) (sf_client scripted)
     ''Applications/'' [withContinue ''''] (fresh [Inr (''<html>'', 200)]) = DecodeFailed"
proof -
  have g: "getHTTP (sf_client scripted) ''Applications/'' [withContinue ''''] (fresh [Inr (''<html>'', 200)]) =
          ((''<html>'', None),
           \<lparr>remote = [], requests = [(''GET'', ''http://sf:19080/Applications/?api-version=3.0'')],
            decoded = []\<rparr>)"
    by (simp add: getHTTP_def Run_def scripted_def sf_client_def fresh_def getURL_def
          withContinue_def noOp_def StatusOK_def Let_def)
  have d: "apps_codec ''<html>'' = Inl ''unexpected end of JSON input''"
    by (simp add: apps_codec_def)
  have "GetApplications_pass apps_codec (sf_client scripted)
          (\<lparr>ApplicationItemsPage.ContinuationToken = None, ApplicationItemsPage.Items = []\<rparr>, '''',
           fresh [Inr (''<html>'', 200)]) =
        Return ((None, Some (JSONDeserialise ''unexpected end of JSON input'')),
           \<lparr>remote = [], requests = [(''GET'', ''http://sf:19080/Applications/?api-version=3.0'')],
            decoded = [''<html>'']\<rparr>)"
    using GetApplications_pass_decode_error [where codec = apps_codec, OF g d] by simp
  then have "GetApplications apps_codec (sf_client scripted) (fresh [Inr (''<html>'', 200)]) =
     Some ((None, Some (JSONDeserialise ''unexpected end of JSON input'')),
           \<lparr>remote = [], requests = [(''GET'', ''http://sf:19080/Applications/?api-version=3.0'')],
            decoded = [''<html>'']\<rparr>)"
    by (simp add: GetApplications_def for_loop_Return)
  moreover have "fetched apps_codec (\<lambda>p. getString (ApplicationItemsPage.ContinuationToken p)) (sf_client scripted)
     ''Applications/'' [withContinue ''''] (fresh [Inr (''<html>'', 200)]) = DecodeFailed"
    by (simp add: fetched_def g d)
  ultimately show ?thesis by simp
qed

section \<open>GetApplications over a sequence of pages\<close>

lemma getHTTP_scripted:
  assumes "httpClient c = Some scripted" and "remote w = Inr (b, 200) # script" and "b \<noteq> ''''"
  shows "getHTTP c basePath pfs w = ((b, None), served w ''GET'' (getURL c basePath pfs) script)"
  using assms getHTTP_served [of c scripted w basePath pfs b 200 script]
  by (simp add: scripted_def)

lemma GetApplications_loop_pages:
  assumes "httpClient c = Some scripted"
      and "pages \<noteq> []"
      and "\<forall>(b, p) \<in> set pages. b \<noteq> '''' \<and> codec b = Inr p"
      and "\<forall>(b, p) \<in> set (butlast pages). getString (ApplicationItemsPage.ContinuationToken p) \<noteq> ''''"
      and "getString (ApplicationItemsPage.ContinuationToken (snd (last pages))) = ''''"
      and "remote w = map (\<lambda>(b, p). Inr (b, 200)) pages @ rest"
  shows "for_loop (GetApplications_pass codec c) (agg, tok, w) =
           Some (Inr (agg\<lparr>ApplicationItemsPage.Items :=
                        ApplicationItemsPage.Items agg
                          @ concat (map (\<lambda>(b, p). ApplicationItemsPage.Items p) pages)\<rparr>,
                      '''',
                      w\<lparr>remote := rest,
                        requests := requests w
                          @ map (\<lambda>tok. (''GET'', getURL c ''Applications/'' [withContinue tok]))
                              (tok # map (\<lambda>(b, p). getString (ApplicationItemsPage.ContinuationToken p))
                                       (butlast pages)),
                        decoded := decoded w @ map fst pages\<rparr>))"
  using assms(2-)
proof (induction pages arbitrary: agg tok w)
  case Nil
  then show ?case by simp
next
  case (Cons x xs)
  obtain b p where x: "x = (b, p)" by (cases x)
  from Cons.prems(2) x have b: "b \<noteq> ''''" and d: "codec b = Inr p" by simp_all
  from Cons.prems(5) x have r: "remote w = Inr (b, 200) # (map (\<lambda>(b, p). Inr (b, 200)) xs @ rest)"
    by simp
  let ?w1 = "served w ''GET'' (getURL c ''Applications/'' [withContinue tok])
               (map (\<lambda>(b, p). Inr (b, 200)) xs @ rest)"
  let ?w2 = "?w1\<lparr>decoded := decoded ?w1 @ [b]\<rparr>"
  let ?agg = "agg\<lparr>ApplicationItemsPage.Items :=
                 ApplicationItemsPage.Items agg @ ApplicationItemsPage.Items p\<rparr>"
  let ?t = "getString (ApplicationItemsPage.ContinuationToken p)"
  have g: "getHTTP c ''Applications/'' [withContinue tok] w = ((b, None), ?w1)"
    by (rule getHTTP_scripted [OF assms(1) r b])
  have pass: "GetApplications_pass codec c (agg, tok, w) =
                (if ?t = '''' then Break else Continue) (?agg, ?t, ?w2)"
    by (rule GetApplications_pass_page [where codec = codec, OF g d])
  show ?case
  proof (cases "xs = []")
    case True
    with Cons.prems(4) x have "?t = ''''" by simp
    with pass have "for_loop (GetApplications_pass codec c) (agg, tok, w) = Some (Inr (?agg, '''', ?w2))"
      by (simp add: for_loop_Break)
    with True x show ?thesis by (simp add: served_def)
  next
    case False
    with Cons.prems(3) x have t: "?t \<noteq> ''''" by simp
    with pass have "for_loop (GetApplications_pass codec c) (agg, tok, w) =
                      for_loop (GetApplications_pass codec c) (?agg, ?t, ?w2)"
      by (simp add: for_loop_Continue)
    also have "\<dots> = Some (Inr (?agg\<lparr>ApplicationItemsPage.Items :=
                        ApplicationItemsPage.Items ?agg
                          @ concat (map (\<lambda>(b, p). ApplicationItemsPage.Items p) xs)\<rparr>,
                      '''',
                      ?w2\<lparr>remote := rest,
                        requests := requests ?w2
                          @ map (\<lambda>tok. (''GET'', getURL c ''Applications/'' [withContinue tok]))
                              (?t # map (\<lambda>(b, p). getString (ApplicationItemsPage.ContinuationToken p))
                                       (butlast xs)),
                        decoded := decoded ?w2 @ map fst xs\<rparr>))"
    proof (rule Cons.IH [OF False])
      show "\<forall>(b, p) \<in> set xs. b \<noteq> '''' \<and> codec b = Inr p" using Cons.prems(2) by simp
      show "\<forall>(b, p) \<in> set (butlast xs). getString (ApplicationItemsPage.ContinuationToken p) \<noteq> ''''"
        using Cons.prems(3) False by simp
      show "getString (ApplicationItemsPage.ContinuationToken (snd (last xs))) = ''''"
        using Cons.prems(4) False by simp
      show "remote ?w2 = map (\<lambda>(b, p). Inr (b, 200)) xs @ rest" by (simp add: served_def)
    qed
    finally show ?thesis using False x by (simp add: served_def)
  qed
qed

text \<open>
  C1. Let the transport serve \<open>N\<close> responses of status 200 whose non-empty bodies decode to
  the pages \<open>pages\<close>, every page but the last carrying a non-empty continuation token and
  the last an empty or absent one (and let it hold any further responses \<open>rest\<close>). Then
  \<^verbatim>\<open>GetApplications\<close> returns, with a nil error, the page whose items are the concatenation
  of all the pages' items in their order, nothing removed; it has issued exactly \<open>N\<close>
  requests, the first without a \<^verbatim>\<open>continue\<close> parameter and each later one with the token of
  the page before; and it has stopped at the page with the empty token: \<open>rest\<close> is untouched.
\<close>

theorem GetApplications_aggregates_pages:
  assumes "httpClient c = Some scripted"
      and "pages \<noteq> []"
      and "\<forall>(b, p) \<in> set pages. b \<noteq> '''' \<and> codec b = Inr p"
      and "\<forall>(b, p) \<in> set (butlast pages). getString (ApplicationItemsPage.ContinuationToken p) \<noteq> ''''"
      and "getString (ApplicationItemsPage.ContinuationToken (snd (last pages))) = ''''"
      and "remote w = map (\<lambda>(b, p). Inr (b, 200)) pages @ rest"
  shows "GetApplications codec c w =
           Some ((Some \<lparr>ApplicationItemsPage.ContinuationToken = None,
                        ApplicationItemsPage.Items =
                          concat (map (\<lambda>(b, p). ApplicationItemsPage.Items p) pages)\<rparr>,
                  None),
                 w\<lparr>remote := rest,
                   requests := requests w
                     @ map (\<lambda>tok. (''GET'', getURL c ''Applications/'' [withContinue tok]))
                         ('''' # map (\<lambda>(b, p). getString (ApplicationItemsPage.ContinuationToken p))
                                   (butlast pages)),
                   decoded := decoded w @ map fst pages\<rparr>) \<and>
         length (requests (snd (the (GetApplications codec c w)))) = length (requests w) + length pages"
proof -
  have "for_loop (GetApplications_pass codec c)
          (\<lparr>ApplicationItemsPage.ContinuationToken = None, ApplicationItemsPage.Items = []\<rparr>, '''', w) =
        Some (Inr (\<lparr>ApplicationItemsPage.ContinuationToken = None,
                     ApplicationItemsPage.Items =
                       concat (map (\<lambda>(b, p). ApplicationItemsPage.Items p) pages)\<rparr>,
                   '''',
                   w\<lparr>remote := rest,
                   requests := requests w
                     @ map (\<lambda>tok. (''GET'', getURL c ''Applications/'' [withContinue tok]))
                         ('''' # map (\<lambda>(b, p). getString (ApplicationItemsPage.ContinuationToken p))
                                   (butlast pages)),
                   decoded := decoded w @ map fst pages\<rparr>))"
    using GetApplications_loop_pages [OF assms,
        of "\<lparr>ApplicationItemsPage.ContinuationToken = None, ApplicationItemsPage.Items = []\<rparr>" "''''"]
    by simp
  then show ?thesis
    using assms(2) by (simp add: GetApplications_def)
qed

theorem GetApplications_aggregates_pages_witness:
  "GetApplications apps_codec (sf_client scripted)
     (fresh [Inr (''page1'', 200), Inr (''page2'', 200), Inr (''page1'', 200)]) =
     Some ((Some \<lparr>ApplicationItemsPage.ContinuationToken = None,
                  ApplicationItemsPage.Items = [app_item ''a'', app_item ''b'', app_item ''a'']\<rparr>,
            None),
           \<lparr>remote = [Inr (''page1'', 200)],
            requests = [(''GET'', ''http://sf:19080/Applications/?api-version=3.0''),
                        (''GET'', ''http://sf:19080/Applications/?api-version=3.0&continue=t1'')],
            decoded = [''page1'', ''page2'']\<rparr>)"
  using GetApplications_aggregates_pages [of "sf_client scripted"
      "[(''page1'', \<lparr>ApplicationItemsPage.ContinuationToken = Some ''t1'',
                      ApplicationItemsPage.Items = [app_item ''a'', app_item ''b'']\<rparr>),
        (''page2'', \<lparr>ApplicationItemsPage.ContinuationToken = None,
                      ApplicationItemsPage.Items = [app_item ''a'']\<rparr>)]"
      apps_codec
      "fresh [Inr (''page1'', 200), Inr (''page2'', 200), Inr (''page1'', 200)]"
      "[Inr (''page1'', 200)]"]
  by (simp add: sf_client_def fresh_def apps_codec_def getString_def getURL_def withContinue_def
        withParam_def noOp_def)

section \<open>GetProperties over a sequence of pages\<close>

lemma range_Properties_map_of:
  "range_Properties ps m = m ++ map_of (rev (string_pairs ps))"
proof (induction ps arbitrary: m)
  case Nil
  show ?case by (simp add: string_pairs_def)
next
  case (Cons p ps)
  show ?case
  proof (cases "PropValue.Kind (Property.Value p) = ''String''")
    case True
    then have "string_pairs (p # ps) = (Property.Name p, Data (Property.Value p)) # string_pairs ps"
      by (simp add: string_pairs_def)
    then have sp: "map_of (rev (string_pairs (p # ps))) =
                     map_of [(Property.Name p, Data (Property.Value p))] ++ map_of (rev (string_pairs ps))"
      by (simp add: map_of_append)
    have "range_Properties (p # ps) m =
            range_Properties ps (m(Property.Name p \<mapsto> Data (Property.Value p)))"
      using True by simp
    also have "\<dots> = m(Property.Name p \<mapsto> Data (Property.Value p)) ++ map_of (rev (string_pairs ps))"
      by (rule Cons.IH)
    also have "\<dots> = m ++ map_of (rev (string_pairs (p # ps)))"
      unfolding sp by (rule ext) (simp add: map_add_def split: option.splits)
    finally show ?thesis .
  next
    case False
    then have "string_pairs (p # ps) = string_pairs ps" by (simp add: string_pairs_def)
    with False Cons.IH [of m] show ?thesis by simp
  qed
qed

lemma range_Properties_append:
  "range_Properties (ps @ qs) m = range_Properties qs (range_Properties ps m)"
  by (induction ps arbitrary: m) simp_all

lemma range_Properties_sound:
  "range_Properties ps Map.empty n = Some d \<Longrightarrow> (n, d) \<in> set (string_pairs ps)"
  using map_of_SomeD [of "rev (string_pairs ps)" n d] by (simp add: range_Properties_map_of)

lemma range_Properties_last:
  assumes "PropValue.Kind (Property.Value p) = ''String''"
      and "\<forall>q \<in> set after. PropValue.Kind (Property.Value q) = ''String'' \<longrightarrow> Property.Name q \<noteq> Property.Name p"
  shows "range_Properties (before @ p # after) Map.empty (Property.Name p) = Some (Data (Property.Value p))"
proof -
  have n: "Property.Name p \<notin> fst ` set (string_pairs after)"
    using assms(2) by (auto simp: string_pairs_def)
  have "string_pairs (before @ p # after) =
          string_pairs before @ (Property.Name p, Data (Property.Value p)) # string_pairs after"
    using assms(1) by (simp add: string_pairs_def)
  then have "range_Properties (before @ p # after) Map.empty =
          map_of (rev (string_pairs after) @ (Property.Name p, Data (Property.Value p)) # rev (string_pairs before))"
    by (simp add: range_Properties_map_of)
  moreover have "map_of (rev (string_pairs after)) (Property.Name p) = None"
    using n by (simp add: map_of_eq_None_iff)
  ultimately show ?thesis
    by (simp add: map_of_append map_add_def)
qed

lemma range_Properties_distinct:
  assumes "distinct (map fst (string_pairs ps))"
  shows "range_Properties ps Map.empty n = Some d \<longleftrightarrow> (n, d) \<in> set (string_pairs ps)"
proof -
  have "distinct (map fst (rev (string_pairs ps)))"
    using assms by (simp add: rev_map [symmetric])
  then have "map_of (rev (string_pairs ps)) n = Some d \<longleftrightarrow> (n, d) \<in> set (rev (string_pairs ps))"
    by (rule map_of_eq_Some_iff)
  then show ?thesis by (simp add: range_Properties_map_of)
qed

lemma GetProperties_loop_pages:
  assumes "httpClient c = Some scripted"
      and "pages \<noteq> []"
      and "\<forall>(b, p) \<in> set pages. b \<noteq> '''' \<and> codec b = Inr p"
      and "\<forall>(b, p) \<in> set (butlast pages). PropertiesListPage.ContinuationToken p \<noteq> ''''"
      and "PropertiesListPage.ContinuationToken (snd (last pages)) = ''''"
      and "remote w = map (\<lambda>(b, p). Inr (b, 200)) pages @ rest"
  shows "for_loop (GetProperties_pass codec c name) (props, tok, w) =
           Some (Inr (range_Properties (concat (map (\<lambda>(b, p). Properties p) pages)) props,
                      '''',
                      w\<lparr>remote := rest,
                        requests := requests w
                          @ map (\<lambda>tok. (''GET'', getURL c (''Names/'' @ name @ ''/$/GetProperties'')
                                                   [withContinue tok, withParam ''IncludeValues'' ''true'']))
                              (tok # map (\<lambda>(b, p). PropertiesListPage.ContinuationToken p) (butlast pages)),
                        decoded := decoded w @ map fst pages\<rparr>))"
  using assms(2-)
proof (induction pages arbitrary: props tok w)
  case Nil
  then show ?case by simp
next
  case (Cons x xs)
  obtain b p where x: "x = (b, p)" by (cases x)
  from Cons.prems(2) x have b: "b \<noteq> ''''" and d: "codec b = Inr p" by simp_all
  from Cons.prems(5) x have r: "remote w = Inr (b, 200) # (map (\<lambda>(b, p). Inr (b, 200)) xs @ rest)"
    by simp
  let ?pfs = "[withContinue tok, withParam ''IncludeValues'' ''true'']"
  let ?w1 = "served w ''GET'' (getURL c (''Names/'' @ name @ ''/$/GetProperties'') ?pfs)
               (map (\<lambda>(b, p). Inr (b, 200)) xs @ rest)"
  let ?w2 = "?w1\<lparr>decoded := decoded ?w1 @ [b]\<rparr>"
  let ?props = "range_Properties (Properties p) props"
  let ?t = "PropertiesListPage.ContinuationToken p"
  have g: "getHTTP c (''Names/'' @ name @ ''/$/GetProperties'') ?pfs w = ((b, None), ?w1)"
    by (rule getHTTP_scripted [OF assms(1) r b])
  have pass: "GetProperties_pass codec c name (props, tok, w) =
                (if ?t = '''' then Break else Continue) (?props, ?t, ?w2)"
    by (rule GetProperties_pass_page [where codec = codec, OF g d])
  show ?case
  proof (cases "xs = []")
    case True
    with Cons.prems(4) x have "?t = ''''" by simp
    with pass have "for_loop (GetProperties_pass codec c name) (props, tok, w) = Some (Inr (?props, '''', ?w2))"
      by (simp add: for_loop_Break)
    with True x show ?thesis by (simp add: served_def)
  next
    case False
    with Cons.prems(3) x have t: "?t \<noteq> ''''" by simp
    with pass have "for_loop (GetProperties_pass codec c name) (props, tok, w) =
                      for_loop (GetProperties_pass codec c name) (?props, ?t, ?w2)"
      by (simp add: for_loop_Continue)
    also have "\<dots> = Some (Inr (range_Properties (concat (map (\<lambda>(b, p). Properties p) xs)) ?props,
                      '''',
                      ?w2\<lparr>remote := rest,
                        requests := requests ?w2
                          @ map (\<lambda>tok. (''GET'', getURL c (''Names/'' @ name @ ''/$/GetProperties'')
                                                   [withContinue tok, withParam ''IncludeValues'' ''true'']))
                              (?t # map (\<lambda>(b, p). PropertiesListPage.ContinuationToken p) (butlast xs)),
                        decoded := decoded ?w2 @ map fst xs\<rparr>))"
    proof (rule Cons.IH [OF False])
      show "\<forall>(b, p) \<in> set xs. b \<noteq> '''' \<and> codec b = Inr p" using Cons.prems(2) by simp
      show "\<forall>(b, p) \<in> set (butlast xs). PropertiesListPage.ContinuationToken p \<noteq> ''''"
        using Cons.prems(3) False by simp
      show "PropertiesListPage.ContinuationToken (snd (last xs)) = ''''"
        using Cons.prems(4) False by simp
      show "remote ?w2 = map (\<lambda>(b, p). Inr (b, 200)) xs @ rest" by (simp add: served_def)
    qed
    finally show ?thesis using False x by (simp add: served_def range_Properties_append)
  qed
qed

lemma GetProperties_scripted:
  assumes "httpClient c = Some scripted"
      and "pages \<noteq> []"
      and "\<forall>(b, p) \<in> set pages. b \<noteq> '''' \<and> codec b = Inr p"
      and "\<forall>(b, p) \<in> set (butlast pages). PropertiesListPage.ContinuationToken p \<noteq> ''''"
      and "PropertiesListPage.ContinuationToken (snd (last pages)) = ''''"
      and "remote w = Inr (probe, 200) # map (\<lambda>(b, p). Inr (b, 200)) pages @ rest"
  shows "GetProperties codec c name w =
           Some ((True, Some (range_Properties (concat (map (\<lambda>(b, p). Properties p) pages)) Map.empty), None),
                 w\<lparr>remote := rest,
                   requests := requests w
                     @ (''GET'', getURL c (''Names/'' @ name) [])
                     # map (\<lambda>tok. (''GET'', getURL c (''Names/'' @ name @ ''/$/GetProperties'')
                                              [withContinue tok, withParam ''IncludeValues'' ''true'']))
                         ('''' # map (\<lambda>(b, p). PropertiesListPage.ContinuationToken p) (butlast pages)),
                   decoded := decoded w @ map fst pages\<rparr>)"
proof -
  let ?w1 = "served w ''GET'' (getURL c (''Names/'' @ name) []) (map (\<lambda>(b, p). Inr (b, 200)) pages @ rest)"
  have "getHTTPRaw c (''Names/'' @ name) w = ((200, None), ?w1)"
    using assms(1,6) getHTTPRaw_served [of c scripted w "''Names/'' @ name" probe 200
        "map (\<lambda>(b, p). Inr (b, 200)) pages @ rest"]
    by (simp add: scripted_def)
  then have n: "nameExists c name w = ((True, None), ?w1)"
    by (simp add: nameExists_def StatusOK_def)
  have r: "remote ?w1 = map (\<lambda>(b, p). Inr (b, 200)) pages @ rest" by (simp add: served_def)
  show ?thesis
    using GetProperties_loop_pages [OF assms(1-5) r, of name Map.empty "''''"] n
    by (simp add: GetProperties_def served_def)
qed

text \<open>
  C3, as the code has it. Let the probe be answered with 200 and the transport then serve
  the pages \<open>pages\<close> (as in C1), and let \<open>fetched_properties\<close> be their properties in the
  order fetched. \<^verbatim>\<open>GetProperties\<close> returns true, a nil error and a mapping that
  \<^item> holds only (Name, Value.Data) pairs of properties whose Value.Kind is exactly
    \<^verbatim>\<open>"String"\<close>: every other kind is left out;
  \<^item> maps the Name of each such property to the Data of the last one bearing that Name;
  \<^item> and so holds exactly those pairs whenever the Names of the \<^verbatim>\<open>"String"\<close> properties are
    pairwise distinct.
\<close>

theorem GetProperties_string_properties:
  assumes "httpClient c = Some scripted"
      and "pages \<noteq> []"
      and "\<forall>(b, p) \<in> set pages. b \<noteq> '''' \<and> codec b = Inr p"
      and "\<forall>(b, p) \<in> set (butlast pages). PropertiesListPage.ContinuationToken p \<noteq> ''''"
      and "PropertiesListPage.ContinuationToken (snd (last pages)) = ''''"
      and "remote w = Inr (probe, 200) # map (\<lambda>(b, p). Inr (b, 200)) pages @ rest"
      and "fetched_properties = concat (map (\<lambda>(b, p). Properties p) pages)"
  shows "\<exists>m w'. GetProperties codec c name w = Some ((True, Some m, None), w') \<and>
           m = range_Properties fetched_properties Map.empty \<and>
           (\<forall>n d. m n = Some d \<longrightarrow> (n, d) \<in> set (string_pairs fetched_properties)) \<and>
           (\<forall>before p after.
              fetched_properties = before @ p # after \<and>
              PropValue.Kind (Property.Value p) = ''String'' \<and>
              (\<forall>q \<in> set after. PropValue.Kind (Property.Value q) = ''String''
                 \<longrightarrow> Property.Name q \<noteq> Property.Name p)
              \<longrightarrow> m (Property.Name p) = Some (Data (Property.Value p))) \<and>
           (distinct (map fst (string_pairs fetched_properties)) \<longrightarrow>
              (\<forall>n d. m n = Some d \<longleftrightarrow> (n, d) \<in> set (string_pairs fetched_properties)))"
proof -
  let ?m = "range_Properties fetched_properties Map.empty"
  have 1: "\<forall>n d. ?m n = Some d \<longrightarrow> (n, d) \<in> set (string_pairs fetched_properties)"
    using range_Properties_sound by blast
  have 2: "\<forall>before p after.
              fetched_properties = before @ p # after \<and>
              PropValue.Kind (Property.Value p) = ''String'' \<and>
              (\<forall>q \<in> set after. PropValue.Kind (Property.Value q) = ''String''
                 \<longrightarrow> Property.Name q \<noteq> Property.Name p)
              \<longrightarrow> ?m (Property.Name p) = Some (Data (Property.Value p))"
    using range_Properties_last by blast
  have 3: "distinct (map fst (string_pairs fetched_properties)) \<longrightarrow>
              (\<forall>n d. ?m n = Some d \<longleftrightarrow> (n, d) \<in> set (string_pairs fetched_properties))"
    using range_Properties_distinct by blast
  from GetProperties_scripted [OF assms(1-6), of name] assms(7)
  obtain w' where "GetProperties codec c name w = Some ((True, Some ?m, None), w')"
    by simp
  with 1 2 3 show ?thesis by blast
qed

theorem GetProperties_string_properties_witness:
  "\<exists>m w'. GetProperties props_codec (sf_client scripted) ''fabric:/app''
             (fresh [Inr (''ok'', 200), Inr (''single'', 200)]) = Some ((True, Some m, None), w') \<and>
          m = [''a'' \<mapsto> ''x'']"
proof -
  let ?ps = "[prop_item ''a'' ''String'' ''x'', prop_item ''b'' ''Int64'' ''5'']"
  have "range_Properties ?ps Map.empty = [''a'' \<mapsto> ''x'']"
    by (simp add: prop_item_def)
  then show ?thesis
    using GetProperties_string_properties [of "sf_client scripted"
      "[(''single'', \<lparr>PropertiesListPage.ContinuationToken = '''', IsConsistent = True,
                      Properties = ?ps\<rparr>)]"
      props_codec "fresh [Inr (''ok'', 200), Inr (''single'', 200)]" "''ok''" "[]" ?ps "''fabric:/app''"]
    by (simp add: sf_client_def fresh_def props_codec_def)
qed

text \<open>
  The claim as stated fails when two \<^verbatim>\<open>"String"\<close> properties share a Name: the pair
  \<^verbatim>\<open>("a", "x")\<close> is the pair of a fetched property of kind \<^verbatim>\<open>"String"\<close>, and the mapping
  returned holds \<^verbatim>\<open>"y"\<close> under \<^verbatim>\<open>"a"\<close>.
\<close>

theorem GetProperties_duplicate_name_counterexample:
  "GetProperties props_codec (sf_client scripted) ''fabric:/app''
     (fresh [Inr (''ok'', 200), Inr (''page1'', 200), Inr (''page2'', 200)]) =
     Some ((True, Some [''a'' \<mapsto> ''y''], None),
           \<lparr>remote = [],
            requests =
              [(''GET'', ''http://sf:19080/Names/fabric:/app?api-version=3.0''),
               (''GET'', ''http://sf:19080/Names/fabric:/app/$/GetProperties?api-version=3.0&IncludeValues=true''),
               (''GET'', ''http://sf:19080/Names/fabric:/app/$/GetProperties?api-version=3.0&continue=t1&IncludeValues=true'')],
            decoded = [''page1'', ''page2'']\<rparr>) \<and>
   (''a'', ''x'') \<in> set (string_pairs
      [prop_item ''a'' ''String'' ''x'', prop_item ''b'' ''Int64'' ''5'',
       prop_item ''a'' ''String'' ''y'', prop_item ''c'' ''string'' ''z''])"
proof -
  have "GetProperties props_codec (sf_client scripted) ''fabric:/app''
     (fresh [Inr (''ok'', 200), Inr (''page1'', 200), Inr (''page2'', 200)]) =
     Some ((True, Some [''a'' \<mapsto> ''y''], None),
           \<lparr>remote = [],
            requests =
              [(''GET'', ''http://sf:19080/Names/fabric:/app?api-version=3.0''),
               (''GET'', ''http://sf:19080/Names/fabric:/app/$/GetProperties?api-version=3.0&IncludeValues=true''),
               (''GET'', ''http://sf:19080/Names/fabric:/app/$/GetProperties?api-version=3.0&continue=t1&IncludeValues=true'')],
            decoded = [''page1'', ''page2'']\<rparr>)"
    using GetProperties_scripted [of "sf_client scripted"
      "[(''page1'', \<lparr>PropertiesListPage.ContinuationToken = ''t1'', IsConsistent = True,
             Properties = [prop_item ''a'' ''String'' ''x'', prop_item ''b'' ''Int64'' ''5'']\<rparr>),
        (''page2'', \<lparr>PropertiesListPage.ContinuationToken = '''', IsConsistent = True,
             Properties = [prop_item ''a'' ''String'' ''y'', prop_item ''c'' ''string'' ''z'']\<rparr>)]"
      props_codec "fresh [Inr (''ok'', 200), Inr (''page1'', 200), Inr (''page2'', 200)]" "''ok''" "[]"
      "''fabric:/app''"]
    by (simp add: sf_client_def fresh_def props_codec_def prop_item_def getURL_def withContinue_def
          withParam_def noOp_def)
  moreover have "(''a'', ''x'') \<in> set (string_pairs
      [prop_item ''a'' ''String'' ''x'', prop_item ''b'' ''Int64'' ''5'',
       prop_item ''a'' ''String'' ''y'', prop_item ''c'' ''string'' ''z''])"
    by (simp add: string_pairs_def prop_item_def)
  ultimately show ?thesis by simp
qed

section \<open>Failures of a fetch\<close>

lemma getHTTP_bad_response:
  assumes "httpClient c = Some h"
      and "h (remote w) ''GET'' (getURL c basePath pfs) = (Inr (payload, status), t)"
      and "status \<noteq> 200 \<or> payload = ''''"
  shows "getHTTP c basePath pfs w =
           (('''', Some (if status \<noteq> 200 then ErrorCode status (getURL c basePath pfs)
                        else EmptyResponseBody)),
            served w ''GET'' (getURL c basePath pfs) t)"
  using assms(3) getHTTP_served [OF assms(1,2)] by auto

lemma for_loop_returns_at:
  "pass_state body k s = Some sk \<Longrightarrow> body sk = Return r \<Longrightarrow> for_loop body s = Some (Inl r)"
  using for_loop_pass_state [of body k s sk] for_loop_Return [of body sk r] by simp

text \<open>
  C6. Let the transport answer a GET without a transport error.
  \<^item> If the status is not 200, \<^verbatim>\<open>getHTTP\<close> returns the error that carries the status code and
    the requested URL; if the status is 200 and the body is empty, it returns the
    empty-response error.
  \<^item> If that happens to the fetch of pass \<open>k\<close> of a pagination loop, \<^verbatim>\<open>GetApplications\<close>,
    \<^verbatim>\<open>GetServices\<close> and \<^verbatim>\<open>GetProperties\<close> return that very error, and the world they leave is
    the world right after that fetch: one more request in the log and no more, and
    nothing more handed to a decoder. \<^verbatim>\<open>GetServiceExtension\<close>, the fourth caller of
    \<^verbatim>\<open>getHTTP\<close>, returns the error wrapped, with the same world.
\<close>

theorem fetch_body_failures:
  assumes "httpClient c = Some h"
  shows "(h (remote w) ''GET'' (getURL c basePath pfs) = (Inr (payload, status), t) \<and> status \<noteq> 200 \<longrightarrow>
            getHTTP c basePath pfs w =
              (('''', Some (ErrorCode status (getURL c basePath pfs))),
               served w ''GET'' (getURL c basePath pfs) t)) \<and>
         (h (remote w) ''GET'' (getURL c basePath pfs) = (Inr ('''', 200), t) \<longrightarrow>
            getHTTP c basePath pfs w =
              (('''', Some EmptyResponseBody), served w ''GET'' (getURL c basePath pfs) t)) \<and>
         (pass_state (GetApplications_pass codecA c) k
            (\<lparr>ApplicationItemsPage.ContinuationToken = None, ApplicationItemsPage.Items = []\<rparr>, '''', w0)
            = Some (accA, tok, wk) \<and>
          h (remote wk) ''GET'' (getURL c ''Applications/'' [withContinue tok])
            = (Inr (payload, status), t) \<and>
          (status \<noteq> 200 \<or> payload = '''') \<longrightarrow>
            GetApplications codecA c w0 =
              Some ((None, Some (if status \<noteq> 200
                                 then ErrorCode status (getURL c ''Applications/'' [withContinue tok])
                                 else EmptyResponseBody)),
                    served wk ''GET'' (getURL c ''Applications/'' [withContinue tok]) t)) \<and>
         (pass_state (GetServices_pass codecS c appName) k
            (\<lparr>ServiceItemsPage.ContinuationToken = None, ServiceItemsPage.Items = []\<rparr>, '''', w0)
            = Some (accS, tok, wk) \<and>
          h (remote wk) ''GET'' (getURL c (''Applications/'' @ appName @ ''/$/GetServices'') [withContinue tok])
            = (Inr (payload, status), t) \<and>
          (status \<noteq> 200 \<or> payload = '''') \<longrightarrow>
            GetServices codecS c appName w0 =
              Some ((None, Some (if status \<noteq> 200
                                 then ErrorCode status
                                        (getURL c (''Applications/'' @ appName @ ''/$/GetServices'')
                                           [withContinue tok])
                                 else EmptyResponseBody)),
                    served wk ''GET''
                      (getURL c (''Applications/'' @ appName @ ''/$/GetServices'') [withContinue tok]) t)) \<and>
         (nameExists c name w0 = ((True, None), w1) \<and>
          pass_state (GetProperties_pass codecP c name) k (Map.empty, '''', w1) = Some (accP, tok, wk) \<and>
          h (remote wk) ''GET''
              (getURL c (''Names/'' @ name @ ''/$/GetProperties'')
                 [withContinue tok, withParam ''IncludeValues'' ''true''])
            = (Inr (payload, status), t) \<and>
          (status \<noteq> 200 \<or> payload = '''') \<longrightarrow>
            GetProperties codecP c name w0 =
              Some ((False, None,
                     Some (if status \<noteq> 200
                           then ErrorCode status
                                  (getURL c (''Names/'' @ name @ ''/$/GetProperties'')
                                     [withContinue tok, withParam ''IncludeValues'' ''true''])
                           else EmptyResponseBody)),
                    served wk ''GET''
                      (getURL c (''Names/'' @ name @ ''/$/GetProperties'')
                         [withContinue tok, withParam ''IncludeValues'' ''true'']) t)) \<and>
         (h (remote w) ''GET''
              (getURL c (''ApplicationTypes/'' @ appType @ ''/$/GetServiceTypes'')
                 [withParam ''ApplicationTypeVersion'' applicationVersion])
            = (Inr (payload, status), t) \<and>
          (status \<noteq> 200 \<or> payload = '''') \<longrightarrow>
            GetServiceExtension EqualFold codecT xml c appType applicationVersion serviceTypeName
                extensionKey response w =
              ((Some (ServiceExtensionsRequest
                        (if status \<noteq> 200
                         then ErrorCode status
                                (getURL c (''ApplicationTypes/'' @ appType @ ''/$/GetServiceTypes'')
                                   [withParam ''ApplicationTypeVersion'' applicationVersion])
                         else EmptyResponseBody)),
                response),
               served w ''GET''
                 (getURL c (''ApplicationTypes/'' @ appType @ ''/$/GetServiceTypes'')
                    [withParam ''ApplicationTypeVersion'' applicationVersion]) t)) \<and>
         requests (served wk ''GET'' url t) = requests wk @ [(''GET'', url)] \<and>
         decoded (served wk ''GET'' url t) = decoded wk"
proof -
  note bad = getHTTP_bad_response [OF assms]
  have 1: "h (remote w) ''GET'' (getURL c basePath pfs) = (Inr (payload, status), t) \<and> status \<noteq> 200 \<longrightarrow>
            getHTTP c basePath pfs w =
              (('''', Some (ErrorCode status (getURL c basePath pfs))),
               served w ''GET'' (getURL c basePath pfs) t)"
    using bad [of w basePath pfs payload status t] by simp
  have 2: "h (remote w) ''GET'' (getURL c basePath pfs) = (Inr ('''', 200), t) \<longrightarrow>
            getHTTP c basePath pfs w =
              (('''', Some EmptyResponseBody), served w ''GET'' (getURL c basePath pfs) t)"
    using bad [of w basePath pfs "''''" 200 t] by simp
  have 3: "pass_state (GetApplications_pass codecA c) k
            (\<lparr>ApplicationItemsPage.ContinuationToken = None, ApplicationItemsPage.Items = []\<rparr>, '''', w0)
            = Some (accA, tok, wk) \<and>
          h (remote wk) ''GET'' (getURL c ''Applications/'' [withContinue tok])
            = (Inr (payload, status), t) \<and>
          (status \<noteq> 200 \<or> payload = '''') \<longrightarrow>
            GetApplications codecA c w0 =
              Some ((None, Some (if status \<noteq> 200
                                 then ErrorCode status (getURL c ''Applications/'' [withContinue tok])
                                 else EmptyResponseBody)),
                    served wk ''GET'' (getURL c ''Applications/'' [withContinue tok]) t)"
    (is "?P \<and> ?H \<and> ?S \<longrightarrow> ?C")
  proof
    assume a: "?P \<and> ?H \<and> ?S"
    then have g: "getHTTP c ''Applications/'' [withContinue tok] wk =
                    (('''', Some (if status \<noteq> 200
                                 then ErrorCode status (getURL c ''Applications/'' [withContinue tok])
                                 else EmptyResponseBody)),
                     served wk ''GET'' (getURL c ''Applications/'' [withContinue tok]) t)"
      using bad [of wk "''Applications/''" "[withContinue tok]" payload status t] by blast
    from a have p: ?P by simp
    show ?C
      using for_loop_returns_at [OF p GetApplications_pass_fetch_error [where codec = codecA, OF g]]
      by (simp add: GetApplications_def)
  qed
  have 4: "pass_state (GetServices_pass codecS c appName) k
            (\<lparr>ServiceItemsPage.ContinuationToken = None, ServiceItemsPage.Items = []\<rparr>, '''', w0)
            = Some (accS, tok, wk) \<and>
          h (remote wk) ''GET'' (getURL c (''Applications/'' @ appName @ ''/$/GetServices'') [withContinue tok])
            = (Inr (payload, status), t) \<and>
          (status \<noteq> 200 \<or> payload = '''') \<longrightarrow>
            GetServices codecS c appName w0 =
              Some ((None, Some (if status \<noteq> 200
                                 then ErrorCode status
                                        (getURL c (''Applications/'' @ appName @ ''/$/GetServices'')
                                           [withContinue tok])
                                 else EmptyResponseBody)),
                    served wk ''GET''
                      (getURL c (''Applications/'' @ appName @ ''/$/GetServices'') [withContinue tok]) t)"
    (is "?P \<and> ?H \<and> ?S \<longrightarrow> ?C")
  proof
    assume a: "?P \<and> ?H \<and> ?S"
    then have g: "getHTTP c (''Applications/'' @ appName @ ''/$/GetServices'') [withContinue tok] wk =
                    (('''', Some (if status \<noteq> 200
                                 then ErrorCode status
                                        (getURL c (''Applications/'' @ appName @ ''/$/GetServices'')
                                           [withContinue tok])
                                 else EmptyResponseBody)),
                     served wk ''GET''
                       (getURL c (''Applications/'' @ appName @ ''/$/GetServices'') [withContinue tok]) t)"
      using bad [of wk "''Applications/'' @ appName @ ''/$/GetServices''" "[withContinue tok]"
                    payload status t]
      by blast
    from a have p: ?P by simp
    show ?C
      using for_loop_returns_at [OF p GetServices_pass_fetch_error [where codec = codecS, OF g]]
      by (simp add: GetServices_def)
  qed
  have 5: "nameExists c name w0 = ((True, None), w1) \<and>
          pass_state (GetProperties_pass codecP c name) k (Map.empty, '''', w1) = Some (accP, tok, wk) \<and>
          h (remote wk) ''GET''
              (getURL c (''Names/'' @ name @ ''/$/GetProperties'')
                 [withContinue tok, withParam ''IncludeValues'' ''true''])
            = (Inr (payload, status), t) \<and>
          (status \<noteq> 200 \<or> payload = '''') \<longrightarrow>
            GetProperties codecP c name w0 =
              Some ((False, None,
                     Some (if status \<noteq> 200
                           then ErrorCode status
                                  (getURL c (''Names/'' @ name @ ''/$/GetProperties'')
                                     [withContinue tok, withParam ''IncludeValues'' ''true''])
                           else EmptyResponseBody)),
                    served wk ''GET''
                      (getURL c (''Names/'' @ name @ ''/$/GetProperties'')
                         [withContinue tok, withParam ''IncludeValues'' ''true'']) t)"
    (is "?N \<and> ?P \<and> ?H \<and> ?S \<longrightarrow> ?C")
  proof
    assume a: "?N \<and> ?P \<and> ?H \<and> ?S"
    then have g: "getHTTP c (''Names/'' @ name @ ''/$/GetProperties'')
                    [withContinue tok, withParam ''IncludeValues'' ''true''] wk =
                    (('''', Some (if status \<noteq> 200
                           then ErrorCode status
                                  (getURL c (''Names/'' @ name @ ''/$/GetProperties'')
                                     [withContinue tok, withParam ''IncludeValues'' ''true''])
                           else EmptyResponseBody)),
                     served wk ''GET''
                      (getURL c (''Names/'' @ name @ ''/$/GetProperties'')
                         [withContinue tok, withParam ''IncludeValues'' ''true'']) t)"
      using bad [of wk "''Names/'' @ name @ ''/$/GetProperties''"
                    "[withContinue tok, withParam ''IncludeValues'' ''true'']" payload status t]
      by blast
    from a have p: ?P and n: ?N by simp_all
    show ?C
      using for_loop_returns_at [OF p GetProperties_pass_fetch_error [where codec = codecP, OF g]] n
      by (simp add: GetProperties_def)
  qed
  have 6: "h (remote w) ''GET''
              (getURL c (''ApplicationTypes/'' @ appType @ ''/$/GetServiceTypes'')
                 [withParam ''ApplicationTypeVersion'' applicationVersion])
            = (Inr (payload, status), t) \<and>
          (status \<noteq> 200 \<or> payload = '''') \<longrightarrow>
            GetServiceExtension EqualFold codecT xml c appType applicationVersion serviceTypeName
                extensionKey response w =
              ((Some (ServiceExtensionsRequest
                        (if status \<noteq> 200
                         then ErrorCode status
                                (getURL c (''ApplicationTypes/'' @ appType @ ''/$/GetServiceTypes'')
                                   [withParam ''ApplicationTypeVersion'' applicationVersion])
                         else EmptyResponseBody)),
                response),
               served w ''GET''
                 (getURL c (''ApplicationTypes/'' @ appType @ ''/$/GetServiceTypes'')
                    [withParam ''ApplicationTypeVersion'' applicationVersion]) t)"
    using bad [of w "''ApplicationTypes/'' @ appType @ ''/$/GetServiceTypes''"
                  "[withParam ''ApplicationTypeVersion'' applicationVersion]" payload status t]
    by (auto simp: GetServiceExtension_def)
  have 7: "requests (served wk ''GET'' url t) = requests wk @ [(''GET'', url)] \<and>
         decoded (served wk ''GET'' url t) = decoded wk"
    by (simp add: served_def)
  from 1 2 3 4 5 6 7 show ?thesis by (intro conjI) simp_all
qed

theorem fetch_body_failures_witness:
  "GetApplications apps_codec (sf_client scripted)
     (fresh [Inr (''page1'', 200), Inr (''Internal Server Error'', 500), Inr (''page2'', 200)]) =
     Some ((None, Some (ErrorCode 500 ''http://sf:19080/Applications/?api-version=3.0&continue=t1'')),
           \<lparr>remote = [Inr (''page2'', 200)],
            requests = [(''GET'', ''http://sf:19080/Applications/?api-version=3.0''),
                        (''GET'', ''http://sf:19080/Applications/?api-version=3.0&continue=t1'')],
            decoded = [''page1'']\<rparr>) \<and>
   getHTTP (sf_client scripted) ''Applications/'' [] (fresh [Inr ('''', 200), Inr (''page2'', 200)]) =
     (('''', Some EmptyResponseBody),
      \<lparr>remote = [Inr (''page2'', 200)],
       requests = [(''GET'', ''http://sf:19080/Applications/?api-version=3.0'')],
       decoded = []\<rparr>)"
proof -
  have a: "GetApplications apps_codec (sf_client scripted)
     (fresh [Inr (''page1'', 200), Inr (''Internal Server Error'', 500), Inr (''page2'', 200)]) =
     Some ((None, Some (ErrorCode 500 ''http://sf:19080/Applications/?api-version=3.0&continue=t1'')),
           \<lparr>remote = [Inr (''page2'', 200)],
            requests = [(''GET'', ''http://sf:19080/Applications/?api-version=3.0''),
                        (''GET'', ''http://sf:19080/Applications/?api-version=3.0&continue=t1'')],
            decoded = [''page1'']\<rparr>)"
    using fetch_body_failures [where c = "sf_client scripted" and h = scripted and codecA = apps_codec
      and k = "Suc 0"
      and ?w0.0 = "fresh [Inr (''page1'', 200), Inr (''Internal Server Error'', 500), Inr (''page2'', 200)]"
      and accA = "\<lparr>ApplicationItemsPage.ContinuationToken = None,
                     ApplicationItemsPage.Items = [app_item ''a'', app_item ''b'']\<rparr>"
      and tok = "''t1''"
      and wk = "\<lparr>remote = [Inr (''Internal Server Error'', 500), Inr (''page2'', 200)],
                  requests = [(''GET'', ''http://sf:19080/Applications/?api-version=3.0'')],
                  decoded = [''page1'']\<rparr>"
      and payload = "''Internal Server Error''" and status = 500 and t = "[Inr (''page2'', 200)]",
      THEN conjunct2, THEN conjunct2, THEN conjunct1]
    by (simp add: sf_client_def fresh_def scripted_def apps_codec_def getString_def getURL_def
        withContinue_def withParam_def noOp_def served_def GetApplications_pass_def getHTTP_def
        Run_def json_Unmarshal_def StatusOK_def Let_def)
  have b: "getHTTP (sf_client scripted) ''Applications/'' [] (fresh [Inr ('''', 200), Inr (''page2'', 200)]) =
     (('''', Some EmptyResponseBody),
      \<lparr>remote = [Inr (''page2'', 200)],
       requests = [(''GET'', ''http://sf:19080/Applications/?api-version=3.0'')],
       decoded = []\<rparr>)"
    using fetch_body_failures [where c = "sf_client scripted" and h = scripted
      and w = "fresh [Inr ('''', 200), Inr (''page2'', 200)]" and basePath = "''Applications/''"
      and pfs = "[]" and t = "[Inr (''page2'', 200)]", THEN conjunct2, THEN conjunct1]
    by (simp add: sf_client_def fresh_def scripted_def getURL_def served_def)
  from a b show ?thesis by simp
qed

section \<open>GetServiceExtension\<close>

lemma range_Extensions_first_match:
  "range_Extensions EqualFold xml exts extensionKey response w =
     (case filter (\<lambda>extension. EqualFold (KeyValuePair.Key extension) extensionKey) exts of
        [] \<Rightarrow> None
      | e # _ \<Rightarrow>
          Some ((map_option XMLDeserialise (fst (xml (KeyValuePair.Value e) response)),
                 snd (xml (KeyValuePair.Value e) response)),
                w\<lparr>decoded := decoded w @ [KeyValuePair.Value e]\<rparr>))"
proof (induction exts)
  case Nil
  show ?case by simp
next
  case (Cons x exts)
  show ?case
  proof (cases "EqualFold (KeyValuePair.Key x) extensionKey")
    case True
    obtain err r where "xml (KeyValuePair.Value x) response = (err, r)" by (cases "xml (KeyValuePair.Value x) response")
    with True show ?thesis by (cases err) (simp_all add: xml_Unmarshal_def)
  next
    case False
    with Cons.IH show ?thesis by simp
  qed
qed

lemma matching_extensions_Cons:
  "matching_extensions EqualFold (st # sts) serviceTypeName extensionKey =
     (if ServiceTypeName (ServiceTypeDescription st) = serviceTypeName
      then filter (\<lambda>extension. EqualFold (KeyValuePair.Key extension) extensionKey)
             (Extensions (ServiceTypeDescription st))
      else [])
     @ matching_extensions EqualFold sts serviceTypeName extensionKey"
  by (simp add: matching_extensions_def)

lemma range_serviceTypes_first_match:
  "range_serviceTypes EqualFold xml sts serviceTypeName extensionKey response w =
     (case matching_extensions EqualFold sts serviceTypeName extensionKey of
        [] \<Rightarrow> ((None, response), w)
      | e # _ \<Rightarrow>
          ((map_option XMLDeserialise (fst (xml (KeyValuePair.Value e) response)),
            snd (xml (KeyValuePair.Value e) response)),
           w\<lparr>decoded := decoded w @ [KeyValuePair.Value e]\<rparr>))"
proof (induction sts)
  case Nil
  show ?case by (simp add: matching_extensions_def)
next
  case (Cons st sts)
  show ?case
  proof (cases "ServiceTypeName (ServiceTypeDescription st) = serviceTypeName")
    case True
    show ?thesis
    proof (cases "filter (\<lambda>extension. EqualFold (KeyValuePair.Key extension) extensionKey)
                    (Extensions (ServiceTypeDescription st))")
      case Nil
      with True Cons.IH show ?thesis
        by (simp add: matching_extensions_Cons range_Extensions_first_match)
    next
      case (Cons e es)
      with True show ?thesis
        by (simp add: matching_extensions_Cons range_Extensions_first_match)
    qed
  next
    case False
    with Cons.IH show ?thesis by (simp add: matching_extensions_Cons)
  qed
qed

lemma matching_extensions_Nil_iff:
  "matching_extensions EqualFold sts serviceTypeName extensionKey = [] \<longleftrightarrow>
     (\<forall>st \<in> set sts. ServiceTypeName (ServiceTypeDescription st) = serviceTypeName \<longrightarrow>
        (\<forall>e \<in> set (Extensions (ServiceTypeDescription st)).
           \<not> EqualFold (KeyValuePair.Key e) extensionKey))"
  by (auto simp: matching_extensions_def filter_empty_conv)

text \<open>
  C4. Let the service-type list be fetched (status 200, a non-empty body that decodes to
  \<open>serviceTypes\<close>), and let \<open>fetch\<close> be the world right after that request.
  \<^item> If every service type named \<open>serviceTypeName\<close> exactly (there may be none) has no
    extension whose key equals \<open>extensionKey\<close> under \<^verbatim>\<open>strings.EqualFold\<close>,
    \<^verbatim>\<open>GetServiceExtension\<close> returns a nil error and leaves the caller's \<open>response\<close> as it was;
    nothing is handed to the XML decoder.
  \<^item> Otherwise the value of the first matching extension, in scan order, is XML-decoded
    into \<open>response\<close>: the call returns the target as the decoder leaves it, and the
    decoder's error, if any, wrapped.
\<close>

theorem GetServiceExtension_first_match:
  assumes "httpClient c = Some h"
      and "h (remote w) ''GET''
             (endpoint c @ ''/ApplicationTypes/'' @ appType @ ''/$/GetServiceTypes?api-version=''
                @ apiVersion c @ ''&ApplicationTypeVersion='' @ applicationVersion)
             = (Inr (payload, 200), t)"
      and "payload \<noteq> ''''"
      and "codec payload = Inr serviceTypes"
      and "fetch = served w ''GET''
             (endpoint c @ ''/ApplicationTypes/'' @ appType @ ''/$/GetServiceTypes?api-version=''
                @ apiVersion c @ ''&ApplicationTypeVersion='' @ applicationVersion) t"
  shows "((\<forall>st \<in> set serviceTypes.
             ServiceTypeName (ServiceTypeDescription st) = serviceTypeName \<longrightarrow>
               (\<forall>e \<in> set (Extensions (ServiceTypeDescription st)).
                  \<not> EqualFold (KeyValuePair.Key e) extensionKey))
          \<longrightarrow> GetServiceExtension EqualFold codec xml c appType applicationVersion serviceTypeName
                extensionKey response w =
              ((None, response), fetch\<lparr>decoded := decoded fetch @ [payload]\<rparr>)) \<and>
         (\<forall>e rest.
            matching_extensions EqualFold serviceTypes serviceTypeName extensionKey = e # rest
            \<longrightarrow> GetServiceExtension EqualFold codec xml c appType applicationVersion serviceTypeName
                  extensionKey response w =
                ((map_option XMLDeserialise (fst (xml (KeyValuePair.Value e) response)),
                  snd (xml (KeyValuePair.Value e) response)),
                 fetch\<lparr>decoded := decoded fetch @ [payload, KeyValuePair.Value e]\<rparr>))"
proof -
  let ?path = "''ApplicationTypes/'' @ appType @ ''/$/GetServiceTypes''"
  let ?pfs = "[withParam ''ApplicationTypeVersion'' applicationVersion]"
  have u: "getURL c ?path ?pfs =
             endpoint c @ ''/ApplicationTypes/'' @ appType @ ''/$/GetServiceTypes?api-version=''
                @ apiVersion c @ ''&ApplicationTypeVersion='' @ applicationVersion"
    by (simp add: getURL_def withParam_def)
  have h': "h (remote w) ''GET'' (getURL c ?path ?pfs) = (Inr (payload, 200), t)"
    unfolding u by (rule assms(2))
  have f: "fetch = served w ''GET'' (getURL c ?path ?pfs) t"
    unfolding u by (rule assms(5))
  have g: "getHTTP c ?path ?pfs w = ((payload, None), fetch)"
    unfolding f using getHTTP_served [OF assms(1) h'] assms(3) by simp
  have r: "GetServiceExtension EqualFold codec xml c appType applicationVersion serviceTypeName
             extensionKey response w =
           range_serviceTypes EqualFold xml serviceTypes serviceTypeName extensionKey response
             (fetch\<lparr>decoded := decoded fetch @ [payload]\<rparr>)"
    using g assms(4) by (simp add: GetServiceExtension_def json_Unmarshal_def)
  show ?thesis
    unfolding r range_serviceTypes_first_match matching_extensions_Nil_iff [symmetric]
    by simp
qed

theorem GetServiceExtension_first_match_witness:
  "GetServiceExtension ascii_EqualFold types_codec labels_codec (sf_client scripted)
       ''AppType'' ''1.0'' ''Missing'' ''Traefik'' \<lparr>Label = []\<rparr> (fresh [Inr (''types'', 200)]) =
     ((None, \<lparr>Label = []\<rparr>),
      \<lparr>remote = [],
       requests = [(''GET'', ''http://sf:19080/ApplicationTypes/AppType/$/GetServiceTypes?api-version=3.0&ApplicationTypeVersion=1.0'')],
       decoded = [''types'']\<rparr>) \<and>
   GetServiceExtension ascii_EqualFold types_codec labels_codec (sf_client scripted)
       ''AppType'' ''1.0'' ''WebType'' ''Traefik'' \<lparr>Label = []\<rparr> (fresh [Inr (''types'', 200)]) =
     ((None, \<lparr>Label = [\<lparr>Label.Value = ''prod'', Label.Key = ''env''\<rparr>,
                         \<lparr>Label.Value = ''80'', Label.Key = ''port''\<rparr>,
                         \<lparr>Label.Value = ''test'', Label.Key = ''env''\<rparr>]\<rparr>),
      \<lparr>remote = [],
       requests = [(''GET'', ''http://sf:19080/ApplicationTypes/AppType/$/GetServiceTypes?api-version=3.0&ApplicationTypeVersion=1.0'')],
       decoded = [''types'', ''<Labels/>'']\<rparr>)"
proof -
  let ?sts = "[svc_type ''Other'' [\<lparr>KeyValuePair.Key = ''Traefik'', KeyValuePair.Value = ''<o/>''\<rparr>],
             svc_type ''WebType'' [\<lparr>KeyValuePair.Key = ''Other'', KeyValuePair.Value = ''<x/>''\<rparr>,
                                   \<lparr>KeyValuePair.Key = ''TRAEFIK'', KeyValuePair.Value = ''<Labels/>''\<rparr>,
                                   \<lparr>KeyValuePair.Key = ''traefik'', KeyValuePair.Value = ''<late/>''\<rparr>]]"
  let ?fetch = "\<lparr>remote = [],
       requests = [(''GET'', ''http://sf:19080/ApplicationTypes/AppType/$/GetServiceTypes?api-version=3.0&ApplicationTypeVersion=1.0'')],
       decoded = []\<rparr> :: (response list) world"
  note inst = GetServiceExtension_first_match [of "sf_client scripted" scripted
      "fresh [Inr (''types'', 200)]" "''AppType''" "''1.0''" "''types''" "[]" types_codec ?sts ?fetch]
  have m: "matching_extensions ascii_EqualFold ?sts ''WebType'' ''Traefik'' =
             [\<lparr>KeyValuePair.Key = ''TRAEFIK'', KeyValuePair.Value = ''<Labels/>''\<rparr>,
              \<lparr>KeyValuePair.Key = ''traefik'', KeyValuePair.Value = ''<late/>''\<rparr>]"
    by (simp add: matching_extensions_def svc_type_def ascii_EqualFold_def ascii_lower_def)
  have a: "GetServiceExtension ascii_EqualFold types_codec labels_codec (sf_client scripted)
       ''AppType'' ''1.0'' ''Missing'' ''Traefik'' \<lparr>Label = []\<rparr> (fresh [Inr (''types'', 200)]) =
     ((None, \<lparr>Label = []\<rparr>), ?fetch\<lparr>decoded := decoded ?fetch @ [''types'']\<rparr>)"
    using inst [where serviceTypeName = "''Missing''" and EqualFold = ascii_EqualFold
        and extensionKey = "''Traefik''" and xml = labels_codec and response = "\<lparr>Label = []\<rparr>",
        THEN conjunct1]
    by (simp add: sf_client_def fresh_def scripted_def types_codec_def served_def svc_type_def)
  have b: "GetServiceExtension ascii_EqualFold types_codec labels_codec (sf_client scripted)
       ''AppType'' ''1.0'' ''WebType'' ''Traefik'' \<lparr>Label = []\<rparr> (fresh [Inr (''types'', 200)]) =
     ((map_option XMLDeserialise (fst (labels_codec ''<Labels/>'' \<lparr>Label = []\<rparr>)),
       snd (labels_codec ''<Labels/>'' \<lparr>Label = []\<rparr>)),
      ?fetch\<lparr>decoded := decoded ?fetch @ [''types'', ''<Labels/>'']\<rparr>)"
    using inst [where serviceTypeName = "''WebType''" and EqualFold = ascii_EqualFold
        and extensionKey = "''Traefik''" and xml = labels_codec and response = "\<lparr>Label = []\<rparr>",
        THEN conjunct2, THEN spec, THEN spec,
        of "\<lparr>KeyValuePair.Key = ''TRAEFIK'', KeyValuePair.Value = ''<Labels/>''\<rparr>"
           "[\<lparr>KeyValuePair.Key = ''traefik'', KeyValuePair.Value = ''<late/>''\<rparr>]"]
    by (simp add: m sf_client_def fresh_def scripted_def types_codec_def served_def)
  from a b show ?thesis by (simp add: labels_codec_def)
qed

section \<open>GetServiceExtensionMap\<close>

lemma range_Label_last:
  "range_Label ls m k =
     (if k \<in> Label.Key ` set ls
      then Some (Label.Value (last (filter (\<lambda>l. Label.Key l = k) ls)))
      else m k)"
proof (induction ls arbitrary: m)
  case Nil
  show ?case by simp
next
  case (Cons l ls)
  have "range_Label (l # ls) m k = range_Label ls (m(Label.Key l \<mapsto> Label.Value l)) k"
    by simp
  also have "\<dots> = (if k \<in> Label.Key ` set ls
                      then Some (Label.Value (last (filter (\<lambda>l. Label.Key l = k) ls)))
                      else (m(Label.Key l \<mapsto> Label.Value l)) k)"
    by (rule Cons.IH)
  also have "\<dots> = (if k \<in> Label.Key ` set (l # ls)
                      then Some (Label.Value (last (filter (\<lambda>l. Label.Key l = k) (l # ls))))
                      else m k)"
  proof (cases "k \<in> Label.Key ` set ls")
    case True
    then have "filter (\<lambda>l. Label.Key l = k) ls \<noteq> []"
      by (auto simp: filter_empty_conv)
    with True show ?thesis by simp
  next
    case False
    then have "filter (\<lambda>l. Label.Key l = k) ls = []"
      by (auto simp: filter_empty_conv)
    with False show ?thesis by auto
  qed
  finally show ?case .
qed

lemma GetServiceExtension_absent:
  assumes "getHTTP c (''ApplicationTypes/'' @ appType @ ''/$/GetServiceTypes'')
             [withParam ''ApplicationTypeVersion'' applicationVersion] w = ((res, None), w1)"
      and "codec res = Inr sts"
      and "matching_extensions EqualFold sts serviceTypeName extensionKey = []"
  shows "GetServiceExtension EqualFold codec xml c appType applicationVersion serviceTypeName
           extensionKey response w = ((None, response), w1\<lparr>decoded := decoded w1 @ [res]\<rparr>)"
  using assms
  by (simp add: GetServiceExtension_def json_Unmarshal_def range_serviceTypes_first_match)

text \<open>
  C10. Whenever \<^verbatim>\<open>GetServiceExtensionMap\<close> returns with a nil error, neither pointer was nil,
  \<^verbatim>\<open>GetServiceExtension\<close> returned a nil error and left the labels \<open>ext\<close>, and the mapping
  returned is not nil: it maps every key borne by a label of \<open>ext\<close> to the value of the
  last label bearing it, in the order the decoder delivered them, and nothing else. It is
  the empty map when \<open>ext\<close> has no labels, and in particular when no extension matches.
\<close>

theorem GetServiceExtensionMap_labels:
  assumes "GetServiceExtensionMap EqualFold codec xml c service app extensionKey w = Some ((m, None), w')"
  shows "\<exists>sv ap ext labels.
           service = Some sv \<and> app = Some ap \<and>
           GetServiceExtension EqualFold codec xml c (ApplicationItem.TypeName ap) (TypeVersion ap)
               (ServiceItem.TypeName sv) extensionKey \<lparr>Label = []\<rparr> w = ((None, ext), w') \<and>
           m = Some labels \<and>
           (\<forall>k. labels k =
                  (if k \<in> Label.Key ` set (Label ext)
                   then Some (Label.Value (last (filter (\<lambda>l. Label.Key l = k) (Label ext))))
                   else None)) \<and>
           (Label ext = [] \<longrightarrow> labels = Map.empty) \<and>
           (\<forall>res w1 sts.
              getHTTP c (''ApplicationTypes/'' @ ApplicationItem.TypeName ap @ ''/$/GetServiceTypes'')
                [withParam ''ApplicationTypeVersion'' (TypeVersion ap)] w = ((res, None), w1) \<and>
              codec res = Inr sts \<and>
              matching_extensions EqualFold sts (ServiceItem.TypeName sv) extensionKey = []
              \<longrightarrow> labels = Map.empty)"
proof -
  from assms obtain ap where ap: "app = Some ap"
    by (cases app) (simp_all add: GetServiceExtensionMap_def)
  from assms ap obtain sv where sv: "service = Some sv"
    by (cases service) (simp_all add: GetServiceExtensionMap_def)
  let ?call = "GetServiceExtension EqualFold codec xml c (ApplicationItem.TypeName ap) (TypeVersion ap)
                 (ServiceItem.TypeName sv) extensionKey \<lparr>Label = []\<rparr> w"
  obtain e ext w2 where call: "?call = ((e, ext), w2)"
    by (metis prod.exhaust)
  let ?labels = "if Label ext \<noteq> [] then range_Label (Label ext) Map.empty else Map.empty"
  from assms ap sv call have e: "e = None" and w2: "w2 = w'" and m: "m = Some ?labels"
    by (cases e; simp add: GetServiceExtensionMap_def Let_def)+
  have f: "\<forall>k. ?labels k =
                  (if k \<in> Label.Key ` set (Label ext)
                   then Some (Label.Value (last (filter (\<lambda>l. Label.Key l = k) (Label ext))))
                   else None)"
    by (simp add: range_Label_last)
  have z: "Label ext = [] \<longrightarrow> ?labels = Map.empty"
    by simp
  have a: "\<forall>res w1 sts.
              getHTTP c (''ApplicationTypes/'' @ ApplicationItem.TypeName ap @ ''/$/GetServiceTypes'')
                [withParam ''ApplicationTypeVersion'' (TypeVersion ap)] w = ((res, None), w1) \<and>
              codec res = Inr sts \<and>
              matching_extensions EqualFold sts (ServiceItem.TypeName sv) extensionKey = []
              \<longrightarrow> ?labels = Map.empty"
  proof (intro allI impI)
    fix res w1 sts
    assume h: "getHTTP c (''ApplicationTypes/'' @ ApplicationItem.TypeName ap @ ''/$/GetServiceTypes'')
                [withParam ''ApplicationTypeVersion'' (TypeVersion ap)] w = ((res, None), w1) \<and>
              codec res = Inr sts \<and>
              matching_extensions EqualFold sts (ServiceItem.TypeName sv) extensionKey = []"
    then have "?call = ((None, \<lparr>Label = []\<rparr>), w1\<lparr>decoded := decoded w1 @ [res]\<rparr>)"
      using GetServiceExtension_absent [where codec = codec and xml = xml and response = "\<lparr>Label = []\<rparr>"]
      by blast
    with call have "ext = \<lparr>Label = []\<rparr>" by simp
    then show "?labels = Map.empty" by simp
  qed
  from ap sv call e w2 m f z a show ?thesis by blast
qed

lemma demo_GetServiceExtension:
  "GetServiceExtension ascii_EqualFold types_codec labels_codec (sf_client scripted)
       ''AppType'' ''1.0'' ''WebType'' ''Traefik'' \<lparr>Label = []\<rparr> (fresh [Inr (''types'', 200)]) =
     ((None, \<lparr>Label = [\<lparr>Label.Value = ''prod'', Label.Key = ''env''\<rparr>,
                         \<lparr>Label.Value = ''80'', Label.Key = ''port''\<rparr>,
                         \<lparr>Label.Value = ''test'', Label.Key = ''env''\<rparr>]\<rparr>),
      \<lparr>remote = [],
       requests = [(''GET'', ''http://sf:19080/ApplicationTypes/AppType/$/GetServiceTypes?api-version=3.0&ApplicationTypeVersion=1.0'')],
       decoded = [''types'', ''<Labels/>'']\<rparr>)"
  by (simp add: GetServiceExtension_def getHTTP_def Run_def scripted_def sf_client_def fresh_def
        getURL_def withParam_def types_codec_def json_Unmarshal_def xml_Unmarshal_def labels_codec_def
        svc_type_def ascii_EqualFold_def ascii_lower_def StatusOK_def Let_def)

theorem GetServiceExtensionMap_labels_witness:
  "\<exists>labels w'.
     GetServiceExtensionMap ascii_EqualFold types_codec labels_codec (sf_client scripted)
       (Some (svc_item ''s'')) (Some (app_item ''a'')) ''Traefik'' (fresh [Inr (''types'', 200)]) =
       Some ((Some labels, None), w') \<and>
     labels ''env'' = Some ''test'' \<and> labels ''port'' = Some ''80'' \<and> labels ''Traefik'' = None"
proof -
  let ?ext = "\<lparr>Label = [\<lparr>Label.Value = ''prod'', Label.Key = ''env''\<rparr>,
                         \<lparr>Label.Value = ''80'', Label.Key = ''port''\<rparr>,
                         \<lparr>Label.Value = ''test'', Label.Key = ''env''\<rparr>]\<rparr>"
  let ?w = "\<lparr>remote = [],
       requests = [(''GET'', ''http://sf:19080/ApplicationTypes/AppType/$/GetServiceTypes?api-version=3.0&ApplicationTypeVersion=1.0'')],
       decoded = [''types'', ''<Labels/>'']\<rparr> :: (response list) world"
  have r: "GetServiceExtensionMap ascii_EqualFold types_codec labels_codec (sf_client scripted)
       (Some (svc_item ''s'')) (Some (app_item ''a'')) ''Traefik'' (fresh [Inr (''types'', 200)]) =
       Some ((Some (range_Label (Label ?ext) Map.empty), None), ?w)"
    using demo_GetServiceExtension
    by (simp add: GetServiceExtensionMap_def app_item_def svc_item_def)
  from GetServiceExtensionMap_labels [OF r] obtain sv ap ext labels where
      sv: "Some (svc_item ''s'') = Some sv" and ap: "Some (app_item ''a'') = Some ap"
      and call: "GetServiceExtension ascii_EqualFold types_codec labels_codec (sf_client scripted)
                   (ApplicationItem.TypeName ap) (TypeVersion ap) (ServiceItem.TypeName sv) ''Traefik''
                   \<lparr>Label = []\<rparr> (fresh [Inr (''types'', 200)]) = ((None, ext), ?w)"
      and m: "Some (range_Label (Label ?ext) Map.empty) = Some labels"
      and f: "\<forall>k. labels k =
                  (if k \<in> Label.Key ` set (Label ext)
                   then Some (Label.Value (last (filter (\<lambda>l. Label.Key l = k) (Label ext))))
                   else None)"
    by blast
  from sv ap have "sv = svc_item ''s''" and "ap = app_item ''a''" by simp_all
  then have "ServiceItem.TypeName sv = ''WebType''" and "ApplicationItem.TypeName ap = ''AppType''"
      and "TypeVersion ap = ''1.0''"
    by (simp_all add: app_item_def svc_item_def)
  with call demo_GetServiceExtension have "ext = ?ext" by simp
  with f have "labels ''env'' = Some ''test'' \<and> labels ''port'' = Some ''80'' \<and> labels ''Traefik'' = None"
    by simp
  with r m show ?thesis by auto
qed

end
